theory Spec2Isabelle
  imports Complex_Main
begin

section \<open>Aurum gold price monitor: a model of server.js\<close>

text \<open>
  The server keeps a cache of two reference values (gold price in USD per troy ounce,
  USD to JOD rate), a registry of subscriptions keyed by email, and evaluates every
  subscription against its tolerance band on a timer and after each registration.
  Each function of \<^verbatim>\<open>server.js\<close> is translated below under its own name.
\<close>

subsection \<open>JavaScript numbers and values\<close>

text \<open>
  A JavaScript number is a finite value, one of the two infinities, or NaN. A finite
  double is represented by the real number it denotes; the sign of zero is not
  represented.
\<close>

datatype jsnum = Num real | PosInf | NegInf | NaN

text \<open>\<^verbatim>\<open>Number.isFinite\<close>.\<close>

fun isFinite :: "jsnum \<Rightarrow> bool" where
  "isFinite (Num x) = True"
| "isFinite PosInf = False"
| "isFinite NegInf = False"
| "isFinite NaN = False"

text \<open>
  The rounding of an exact result to a double (IEEE 754 binary64, round to nearest, ties
  to even). \<open>rne\<close> rounds a real to the nearest integer, a tie going to the even one.
  \<open>expo a\<close> is the binary exponent of the magnitude \<open>a\<close>: the largest \<open>e\<close> from - 1022
  to 1023 with \<open>2\<^sup>e \<le> a\<close>, and - 1022 below that, where doubles are subnormal. The
  doubles of exponent \<open>e\<close> are the multiples of \<open>2\<^sup>e\<^sup>-\<^sup>5\<^sup>2\<close>, and \<open>round_to_spacing\<close>
  takes the nearest of them; a result that rounds to \<open>2\<^sup>1\<^sup>0\<^sup>2\<^sup>4\<close> or beyond in magnitude
  overflows to an infinity, and a result below half the smallest subnormal rounds to
  zero.
\<close>

definition rne :: "real \<Rightarrow> int" where
  "rne m =
     (let f = \<lfloor>m\<rfloor>; d = m - of_int f
      in if d < 1 / 2 then f else if 1 / 2 < d then f + 1 else if even f then f else f + 1)"

fun find_expo :: "nat \<Rightarrow> real \<Rightarrow> int" where
  "find_expo 0 a = - 1022"
| "find_expo (Suc n) a =
     (if 2 powi (int (Suc n) - 1022) \<le> a then int (Suc n) - 1022 else find_expo n a)"

definition expo :: "real \<Rightarrow> int" where
  "expo a = find_expo 2045 a"

definition round_to_spacing :: "real \<Rightarrow> real" where
  "round_to_spacing x =
     (let q = 2 powi (expo \<bar>x\<bar> - 52) in of_int (rne (x / q)) * q)"

definition round_double :: "real \<Rightarrow> jsnum" where
  "round_double x =
     (let r = round_to_spacing x
      in if 2 ^ 1024 \<le> \<bar>r\<bar> then (if 0 < x then PosInf else NegInf) else Num r)"

text \<open>The operator \<^verbatim>\<open>*\<close> on numbers: the exact product, rounded.\<close>

fun js_mul :: "jsnum \<Rightarrow> jsnum \<Rightarrow> jsnum" where
  "js_mul (Num a) (Num b) = round_double (a * b)"
| "js_mul (Num a) PosInf = (if a = 0 then NaN else if 0 < a then PosInf else NegInf)"
| "js_mul (Num a) NegInf = (if a = 0 then NaN else if 0 < a then NegInf else PosInf)"
| "js_mul PosInf (Num b) = (if b = 0 then NaN else if 0 < b then PosInf else NegInf)"
| "js_mul NegInf (Num b) = (if b = 0 then NaN else if 0 < b then NegInf else PosInf)"
| "js_mul PosInf PosInf = PosInf"
| "js_mul PosInf NegInf = NegInf"
| "js_mul NegInf PosInf = NegInf"
| "js_mul NegInf NegInf = PosInf"
| "js_mul NaN y = NaN"
| "js_mul x NaN = NaN"

text \<open>
  The operator \<^verbatim>\<open>/\<close> with a positive finite constant as divisor, which is how both
  divisions of the program are written (by \<^verbatim>\<open>TROY_OUNCE_IN_GRAMS\<close> and by \<^verbatim>\<open>24\<close>):
  the exact quotient, rounded.
\<close>

fun js_div_const :: "jsnum \<Rightarrow> real \<Rightarrow> jsnum" where
  "js_div_const (Num a) c = round_double (a / c)"
| "js_div_const PosInf c = PosInf"
| "js_div_const NegInf c = NegInf"
| "js_div_const NaN c = NaN"

text \<open>
  The comparisons \<^verbatim>\<open><\<close>, \<^verbatim>\<open>>\<close>, \<^verbatim>\<open>>=\<close> and \<^verbatim>\<open><=\<close>: every comparison with NaN is
  false.
\<close>

fun js_lt :: "jsnum \<Rightarrow> jsnum \<Rightarrow> bool" where
  "js_lt (Num a) (Num b) = (a < b)"
| "js_lt (Num a) PosInf = True"
| "js_lt (Num a) NegInf = False"
| "js_lt NegInf (Num b) = True"
| "js_lt NegInf PosInf = True"
| "js_lt NegInf NegInf = False"
| "js_lt PosInf y = False"
| "js_lt NaN y = False"
| "js_lt x NaN = False"

definition js_gt :: "jsnum \<Rightarrow> jsnum \<Rightarrow> bool" where
  "js_gt x y = js_lt y x"

definition js_ge :: "jsnum \<Rightarrow> jsnum \<Rightarrow> bool" where
  "js_ge x y = (x \<noteq> NaN \<and> y \<noteq> NaN \<and> \<not> js_lt x y)"

definition js_le :: "jsnum \<Rightarrow> jsnum \<Rightarrow> bool" where
  "js_le x y = (x \<noteq> NaN \<and> y \<noteq> NaN \<and> \<not> js_lt y x)"

text \<open>
  \<^verbatim>\<open>Number(x.toFixed(4))\<close>: below \<open>10\<^sup>2\<^sup>1\<close> in magnitude \<^verbatim>\<open>toFixed\<close> prints the
  nearest multiple of \<open>10\<^sup>-\<^sup>4\<close>, a tie going away from zero, and \<^verbatim>\<open>Number\<close> reads the
  decimal back as the nearest double; from \<open>10\<^sup>2\<^sup>1\<close> on, and for the infinities and NaN,
  \<^verbatim>\<open>toFixed\<close> prints the number itself, which \<^verbatim>\<open>Number\<close> reads back unchanged.
\<close>

definition round4 :: "real \<Rightarrow> real" where
  "round4 x = sgn x * of_int \<lfloor>\<bar>x\<bar> * 10000 + 1 / 2\<rfloor> / 10000"

fun toFixed4 :: "jsnum \<Rightarrow> jsnum" where
  "toFixed4 (Num x) = (if \<bar>x\<bar> < 10 ^ 21 then round_double (round4 x) else Num x)"
| "toFixed4 PosInf = PosInf"
| "toFixed4 NegInf = NegInf"
| "toFixed4 NaN = NaN"

subsection \<open>Price conversion and threshold evaluation\<close>

text \<open>
  The constant is the double that the literal \<^verbatim>\<open>31.1035\<close> denotes,
  \<open>8754856938119889 / 2\<^sup>4\<^sup>8\<close>.
\<close>

definition TROY_OUNCE_IN_GRAMS :: real where
  "TROY_OUNCE_IN_GRAMS = 8754856938119889 / 281474976710656"

definition VALID_PURITY_LEVELS :: "jsnum set" where
  "VALID_PURITY_LEVELS = {Num 24, Num 22, Num 21, Num 18}"

text \<open>
  \<^verbatim>\<open>convertPrice\<close> takes one object and destructures it; the five fields are the
  arguments here, in the order the source lists them. A purity of \<open>None\<close> is the
  \<^verbatim>\<open>undefined\<close> the function tests for.
\<close>

definition convertPrice :: "jsnum \<Rightarrow> string \<Rightarrow> string \<Rightarrow> jsnum \<Rightarrow> jsnum option \<Rightarrow> jsnum" where
  "convertPrice usdPerOunce unit currency usdToJod purity =
     (let price = usdPerOunce;
          price = (if unit = ''gram'' then js_div_const price TROY_OUNCE_IN_GRAMS else price);
          price = (if currency = ''JOD'' then js_mul price usdToJod else price);
          price = (case purity of
                     Some p \<Rightarrow> js_mul price (js_div_const p 24)
                   | None \<Rightarrow> price)
      in price)"

definition evaluateStatus :: "jsnum \<Rightarrow> jsnum \<Rightarrow> jsnum \<Rightarrow> string" where
  "evaluateStatus currentPrice lowerThreshold upperThreshold =
     (if js_lt currentPrice lowerThreshold then ''below_range''
      else if js_gt currentPrice upperThreshold then ''above_range''
      else ''within_range'')"

text \<open>The payload of \<^verbatim>\<open>buildPayload\<close>; the timestamp is the clock reading passed in.\<close>

record payload =
  p_current_price :: jsnum
  p_unit :: string
  p_currency :: string
  p_lower_threshold :: jsnum
  p_upper_threshold :: jsnum
  p_status :: string
  p_timestamp :: string

definition buildPayload :: "jsnum \<Rightarrow> string \<Rightarrow> string \<Rightarrow> jsnum \<Rightarrow> jsnum \<Rightarrow> string \<Rightarrow> string \<Rightarrow> payload" where
  "buildPayload currentPrice unit currency lowerThreshold upperThreshold status now =
     \<lparr> p_current_price = toFixed4 currentPrice,
       p_unit = unit,
       p_currency = currency,
       p_lower_threshold = lowerThreshold,
       p_upper_threshold = upperThreshold,
       p_status = status,
       p_timestamp = now \<rparr>"

subsection \<open>Values, errors and what the program takes from its host\<close>

text \<open>
  A value as it arrives in a JSON body, a query string or an upstream reply. An object
  is the list of its own properties.
\<close>

datatype jsval =
    JUndefined
  | JNull
  | JBool bool
  | JNumber jsnum
  | JString string
  | JArray "jsval list"
  | JObject "(string \<times> jsval) list"

text \<open>Truthiness, as \<^verbatim>\<open>!x\<close> and \<^verbatim>\<open>||\<close> test it.\<close>

fun truthy :: "jsval \<Rightarrow> bool" where
  "truthy JUndefined = False"
| "truthy JNull = False"
| "truthy (JBool b) = b"
| "truthy (JNumber n) = (n \<noteq> NaN \<and> n \<noteq> Num 0)"
| "truthy (JString s) = (s \<noteq> [])"
| "truthy (JArray xs) = True"
| "truthy (JObject kvs) = True"

text \<open>
  Reading a named property (\<^verbatim>\<open>x.name\<close> where the source has tested \<open>x\<close> before, and
  \<^verbatim>\<open>x?.name\<close>), for the names the source reads: \<^verbatim>\<open>items\<close>, \<^verbatim>\<open>xauPrice\<close>,
  \<^verbatim>\<open>rates\<close>, \<^verbatim>\<open>JOD\<close>. Only an object can have one of them.
\<close>

fun get_prop :: "jsval \<Rightarrow> string \<Rightarrow> jsval" where
  "get_prop (JObject kvs) k = (case map_of kvs k of Some v \<Rightarrow> v | None \<Rightarrow> JUndefined)"
| "get_prop v k = JUndefined"

text \<open>Reading element zero, \<^verbatim>\<open>x?.[0]\<close>.\<close>

fun get_index0 :: "jsval \<Rightarrow> jsval" where
  "get_index0 (JArray (x # xs)) = x"
| "get_index0 (JString (c # cs)) = JString [c]"
| "get_index0 (JObject kvs) = (case map_of kvs ''0'' of Some v \<Rightarrow> v | None \<Rightarrow> JUndefined)"
| "get_index0 v = JUndefined"

datatype error =
    FetchRejected
  | BodyNotJson
  | GoldApiError nat
  | GoldFormatError
  | FxApiError nat
  | FxFormatError
  | SendMailError string
  | TypeError

record transport =
  t_host :: string
  t_port :: jsnum
  t_secure :: bool
  t_user :: string
  t_pass :: string

record mail =
  m_from :: string
  m_to :: string
  m_subject :: string
  m_text :: string

text \<open>
  What the program takes from outside its own text: the reading of a string as a number
  and the printing of a number (the two halves of \<^verbatim>\<open>Number(x)\<close> and of a template
  string that work on text), the environment variables, the outcome of
  \<^verbatim>\<open>transporter.sendMail\<close> (\<open>None\<close> when the mail is accepted), and the clock reading
  taken while the subscription of a given email is evaluated.
\<close>

record host =
  StringToNumber :: "string \<Rightarrow> jsnum"
  NumberToString :: "jsnum \<Rightarrow> string"
  SMTP_HOST :: "string option"
  SMTP_PORT :: "string option"
  SMTP_USER :: "string option"
  SMTP_PASS :: "string option"
  SMTP_FROM :: "string option"
  sendMail :: "transport \<Rightarrow> mail \<Rightarrow> error option"
  clock :: "string \<Rightarrow> string"

text \<open>
  The conversion of a value to a string, as \<^verbatim>\<open>Number(x)\<close> performs it on an array or
  an object before it reads the text: \<open>None\<close> when it raises \<^verbatim>\<open>TypeError\<close>. An array
  is joined with commas, \<^verbatim>\<open>null\<close> and \<^verbatim>\<open>undefined\<close> elements printing as nothing. An
  object parsed from JSON prints as \<^verbatim>\<open>[object Object]\<close>, unless it has a property
  \<^verbatim>\<open>toString\<close> of its own: no JSON value can be called, so the conversion finds no
  method that yields a primitive and raises.
\<close>

fun ToString :: "host \<Rightarrow> jsval \<Rightarrow> string option"
  and JoinElements :: "host \<Rightarrow> jsval list \<Rightarrow> string option" where
  "ToString h JUndefined = Some ''undefined''"
| "ToString h JNull = Some ''null''"
| "ToString h (JBool b) = Some (if b then ''true'' else ''false'')"
| "ToString h (JNumber n) = Some (NumberToString h n)"
| "ToString h (JString s) = Some s"
| "ToString h (JArray xs) = JoinElements h xs"
| "ToString h (JObject kvs) =
     (if ''toString'' \<in> fst ` set kvs then None else Some ''[object Object]'')"
| "JoinElements h [] = Some []"
| "JoinElements h (x # xs) =
     (case (if x = JUndefined \<or> x = JNull then Some [] else ToString h x) of
        None \<Rightarrow> None
      | Some s \<Rightarrow>
          (if xs = [] then Some s
           else (case JoinElements h xs of None \<Rightarrow> None | Some t \<Rightarrow> Some (s @ '','' @ t))))"


fun Number :: "host \<Rightarrow> jsval \<Rightarrow> jsnum" where
  "Number h JUndefined = NaN"
| "Number h JNull = Num 0"
| "Number h (JBool b) = (if b then Num 1 else Num 0)"
| "Number h (JNumber n) = n"
| "Number h (JString s) = StringToNumber h s"
| "Number h v = (case ToString h v of Some s \<Rightarrow> StringToNumber h s | None \<Rightarrow> NaN)"

text \<open>A \<^verbatim>\<open>try\<close> block with its \<^verbatim>\<open>catch\<close> handler.\<close>

definition try_catch :: "error + 'a \<Rightarrow> (error \<Rightarrow> error + 'a) \<Rightarrow> error + 'a" where
  "try_catch body handler = (case body of Inl e \<Rightarrow> handler e | Inr x \<Rightarrow> Inr x)"

subsection \<open>The notification transport\<close>

text \<open>
  An environment variable is falsy when it is not set or empty
  (\<^verbatim>\<open>!host\<close>, \<^verbatim>\<open>process.env.SMTP_PORT || 587\<close>).
\<close>

definition getEmailTransporter :: "host \<Rightarrow> transport option" where
  "getEmailTransporter h =
     (let port = (case SMTP_PORT h of
                    Some s \<Rightarrow> if s \<noteq> [] then Number h (JString s) else Num 587
                  | None \<Rightarrow> Num 587)
      in case (SMTP_HOST h, SMTP_USER h, SMTP_PASS h) of
           (Some host, Some user, Some pass) \<Rightarrow>
             if host = [] \<or> user = [] \<or> pass = [] then None
             else Some \<lparr> t_host = host, t_port = port, t_secure = (port = Num 465),
                         t_user = user, t_pass = pass \<rparr>
         | _ \<Rightarrow> None)"

definition getEmailFrom :: "host \<Rightarrow> string" where
  "getEmailFrom h =
     (case SMTP_FROM h of
        Some s \<Rightarrow> if s \<noteq> [] then s else ''alerts@aurum.local''
      | None \<Rightarrow> ''alerts@aurum.local'')"

text \<open>
  What a call of \<^verbatim>\<open>sendAlertEmail\<close> comes to: \<open>Skipped\<close> when no transport is
  configured (a warning is printed), \<open>Sent\<close> with the mail handed to the transport,
  \<open>Failed\<close> when the send was rejected and the caller's \<^verbatim>\<open>catch\<close> printed the error.
\<close>

datatype delivery = Skipped | Sent mail | Failed error

definition newline :: string where
  "newline = [CHR 0x0A]"

definition sendAlertEmail :: "host \<Rightarrow> string \<Rightarrow> payload \<Rightarrow> string \<Rightarrow> error + delivery" where
  "sendAlertEmail h to payload breached =
     (case getEmailTransporter h of
        None \<Rightarrow> Inr Skipped
      | Some transporter \<Rightarrow>
          (let subject = ''Gold price alert: '' @ breached;
               text = ''Gold price alert'' @ newline @ newline
                 @ ''Current price: '' @ NumberToString h (p_current_price payload) @ '' ''
                 @ p_currency payload @ '' per '' @ p_unit payload @ newline
                 @ ''Threshold breached: '' @ breached @ newline
                 @ ''Lower threshold: '' @ NumberToString h (p_lower_threshold payload) @ newline
                 @ ''Upper threshold: '' @ NumberToString h (p_upper_threshold payload) @ newline
                 @ ''Timestamp: '' @ p_timestamp payload;
               m = \<lparr> m_from = getEmailFrom h, m_to = to, m_subject = subject, m_text = text \<rparr>
           in case sendMail h transporter m of
                Some e \<Rightarrow> Inl e
              | None \<Rightarrow> Inr (Sent m)))"

subsection \<open>The reference data cache\<close>

text \<open>
  The module's variables: the registry in the order of \<^verbatim>\<open>Map\<close> iteration, the two
  cached values (\<open>None\<close> is \<^verbatim>\<open>null\<close>) and the last fetch error.
\<close>

record subscription =
  email :: string
  unit :: string
  currency :: string
  purity :: jsnum
  lower_threshold :: jsnum
  upper_threshold :: jsnum
  lastStatus :: "string option"

record state =
  subscriptions :: "(string \<times> subscription) list"
  latestUsdPricePerOunce :: "jsnum option"
  latestUsdToJodRate :: "jsnum option"
  latestFetchError :: "error option"

text \<open>
  What \<^verbatim>\<open>fetch\<close> gives for one upstream: the request fails, or a reply arrives with a
  status and a body that parses as JSON or does not.
\<close>

datatype http_reply = NetworkError | Reply nat "jsval option"

definition response_ok :: "nat \<Rightarrow> bool" where
  "response_ok code = (200 \<le> code \<and> code \<le> 299)"

definition fetchGoldPriceUsdPerOunce :: "http_reply \<Rightarrow> error + jsnum" where
  "fetchGoldPriceUsdPerOunce reply =
     (case reply of
        NetworkError \<Rightarrow> Inl FetchRejected
      | Reply code body \<Rightarrow>
          if \<not> response_ok code then Inl (GoldApiError code)
          else (case body of
                  None \<Rightarrow> Inl BodyNotJson
                | Some data \<Rightarrow>
                    (case get_prop (get_index0 (get_prop data ''items'')) ''xauPrice'' of
                       JNumber price \<Rightarrow> Inr price
                     | _ \<Rightarrow> Inl GoldFormatError)))"

definition fetchUsdToJodRate :: "http_reply \<Rightarrow> error + jsnum" where
  "fetchUsdToJodRate reply =
     (case reply of
        NetworkError \<Rightarrow> Inl FetchRejected
      | Reply code body \<Rightarrow>
          if \<not> response_ok code then Inl (FxApiError code)
          else (case body of
                  None \<Rightarrow> Inl BodyNotJson
                | Some data \<Rightarrow>
                    if \<not> truthy data \<or> \<not> truthy (get_prop data ''rates'') then Inl FxFormatError
                    else (case get_prop (get_prop data ''rates'') ''JOD'' of
                            JNumber rate \<Rightarrow> Inr rate
                          | _ \<Rightarrow> Inl FxFormatError)))"

text \<open>
  \<^verbatim>\<open>Promise.all\<close> of two promises: both values when both fulfil, otherwise the error
  of the promise that rejects first; \<open>second_first\<close> says that the second one does
  when both reject.
\<close>

definition promise_all :: "bool \<Rightarrow> error + 'a \<Rightarrow> error + 'b \<Rightarrow> error + ('a \<times> 'b)" where
  "promise_all second_first a b =
     (case (a, b) of
        (Inr x, Inr y) \<Rightarrow> Inr (x, y)
      | (Inl e, Inr y) \<Rightarrow> Inl e
      | (Inr x, Inl e) \<Rightarrow> Inl e
      | (Inl e1, Inl e2) \<Rightarrow> Inl (if second_first then e2 else e1))"

definition refreshReferencePrices :: "bool \<Rightarrow> http_reply \<Rightarrow> http_reply \<Rightarrow> state \<Rightarrow> error + state" where
  "refreshReferencePrices second_first gold fx s =
     try_catch
       (case promise_all second_first (fetchGoldPriceUsdPerOunce gold) (fetchUsdToJodRate fx) of
          Inl e \<Rightarrow> Inl e
        | Inr (usdPerOunce, usdToJod) \<Rightarrow>
            Inr (s\<lparr> latestUsdPricePerOunce := Some usdPerOunce,
                    latestUsdToJodRate := Some usdToJod,
                    latestFetchError := None \<rparr>))
       (\<lambda>error. Inr (s\<lparr> latestFetchError := Some error \<rparr>))"

subsection \<open>The evaluation cycle\<close>

text \<open>One call of \<^verbatim>\<open>sendAlertEmail\<close> made by the cycle, with what it came to.\<close>

record dispatch =
  d_to :: string
  d_payload :: payload
  d_breached :: string
  d_delivery :: delivery

text \<open>
  The body of the \<^verbatim>\<open>for\<close> loop of \<^verbatim>\<open>evaluateSubscriptions\<close> for one entry of the
  registry: the entry as the loop leaves it and the calls of \<^verbatim>\<open>sendAlertEmail\<close> made.
  A cycle runs to its end before anything else touches the module's variables.
\<close>

definition evaluateEntry :: "host \<Rightarrow> jsnum \<Rightarrow> jsnum \<Rightarrow> string \<times> subscription \<Rightarrow> subscription \<times> dispatch list" where
  "evaluateEntry h usd rate entry =
     (let email = fst entry;
          subscription = snd entry;
          currentPrice = convertPrice usd (unit subscription) (currency subscription) rate
                           (Some (purity subscription));
          status = evaluateStatus currentPrice (lower_threshold subscription)
                     (upper_threshold subscription);
          payload = buildPayload currentPrice (unit subscription) (currency subscription)
                      (lower_threshold subscription) (upper_threshold subscription) status
                      (clock h email);
          previousStatus = lastStatus subscription;
          subscription = subscription\<lparr> lastStatus := Some status \<rparr>
      in if status = ''within_range'' then (subscription, [])
         else if previousStatus \<noteq> Some status \<and> status \<noteq> ''within_range'' then
           (let breached = (if status = ''below_range'' then ''below lower threshold''
                            else ''above upper threshold'');
                delivered = (case sendAlertEmail h email payload breached of
                               Inr d \<Rightarrow> d
                             | Inl error \<Rightarrow> Failed error)
            in (subscription,
                [\<lparr> d_to = email, d_payload = payload, d_breached = breached,
                   d_delivery = delivered \<rparr>]))
         else (subscription, []))"

fun evaluateEntries :: "host \<Rightarrow> jsnum \<Rightarrow> jsnum \<Rightarrow> (string \<times> subscription) list
    \<Rightarrow> (string \<times> subscription) list \<times> dispatch list" where
  "evaluateEntries h usd rate [] = ([], [])"
| "evaluateEntries h usd rate (entry # rest) =
     (let (subscription, sent) = evaluateEntry h usd rate entry;
          (rest', sent') = evaluateEntries h usd rate rest
      in ((fst entry, subscription) # rest', sent @ sent'))"

definition evaluateSubscriptions :: "host \<Rightarrow> state \<Rightarrow> state \<times> dispatch list" where
  "evaluateSubscriptions h s =
     (case (latestFetchError s, latestUsdPricePerOunce s, latestUsdToJodRate s) of
        (None, Some usd, Some rate) \<Rightarrow>
          (let (subs, sent) = evaluateEntries h usd rate (subscriptions s)
           in (s\<lparr> subscriptions := subs \<rparr>, sent))
      | _ \<Rightarrow> (s, []))"

subsection \<open>The request handlers\<close>

datatype body = ErrorBody string | MonitoringBody string | PayloadBody payload

record response =
  code :: nat
  json :: body






text \<open>
  The query parameters \<^verbatim>\<open>GET /api/agent\<close> reads. The query parser yields strings,
  arrays and objects without a \<^verbatim>\<open>toString\<close> property of their own, on which
  \<^verbatim>\<open>Number\<close> does not raise.
\<close>

record agent_query =
  q_unit :: jsval
  q_currency :: jsval
  q_lower_threshold :: jsval
  q_upper_threshold :: jsval
  q_purity :: jsval

definition get_api_agent :: "host \<Rightarrow> string \<Rightarrow> agent_query \<Rightarrow> state \<Rightarrow> response" where
  "get_api_agent h now q s =
     (let unit = (if q_unit q = JString ''gram'' then ''gram'' else ''ounce'');
          currency = (if q_currency q = JString ''JOD'' then ''JOD'' else ''USD'');
          lower = Number h (q_lower_threshold q);
          upper = Number h (q_upper_threshold q);
          purity = Number h (q_purity q);
          normalizedPurity = (if purity \<in> VALID_PURITY_LEVELS then purity else Num 24)
      in if \<not> isFinite lower \<or> \<not> isFinite upper \<or> js_ge lower upper then
           \<lparr> code = 400, json = ErrorBody ''Thresholds must be numeric and lower < upper.'' \<rparr>
         else
           (case (latestFetchError s, latestUsdPricePerOunce s, latestUsdToJodRate s) of
              (None, Some usd, Some rate) \<Rightarrow>
                (let currentPrice = convertPrice usd unit currency rate (Some normalizedPurity);
                     status = evaluateStatus currentPrice lower upper
                 in \<lparr> code = 200,
                      json = PayloadBody (buildPayload currentPrice unit currency lower upper status now) \<rparr>)
            | _ \<Rightarrow> \<lparr> code = 503, json = ErrorBody ''Price data currently unavailable.'' \<rparr>))"

subsection \<open>Notions used to state the properties\<close>

text \<open>
  The status the loop body computes for a subscription from the cached price and rate
  (the calls of \<^verbatim>\<open>convertPrice\<close> and \<^verbatim>\<open>evaluateStatus\<close> at the head of the loop).
\<close>

definition derived_status :: "jsnum \<Rightarrow> jsnum \<Rightarrow> subscription \<Rightarrow> string" where
  "derived_status usd rate sub =
     evaluateStatus (convertPrice usd (unit sub) (currency sub) rate (Some (purity sub)))
       (lower_threshold sub) (upper_threshold sub)"

text \<open>
  The alert condition in the words of the specification: the new status is not
  \<^verbatim>\<open>within_range\<close> and differs from the stored one, an unset one differing from all.
\<close>

definition alert_due :: "jsnum \<Rightarrow> jsnum \<Rightarrow> subscription \<Rightarrow> bool" where
  "alert_due usd rate sub =
     (derived_status usd rate sub \<noteq> ''within_range''
      \<and> lastStatus sub \<noteq> Some (derived_status usd rate sub))"





text \<open>
  A magnitude with a factor of two to spare inside the normal range of doubles, from
  \<open>2\<^sup>-\<^sup>1\<^sup>0\<^sup>2\<^sup>1\<close> to \<open>2\<^sup>1\<^sup>0\<^sup>2\<^sup>2\<close>, so that a rounded intermediate result that is
  multiplied into it neither underflows nor overflows.
\<close>

definition in_normal_range :: "real \<Rightarrow> bool" where
  "in_normal_range x = (2 powi (- 1021) \<le> \<bar>x\<bar> \<and> \<bar>x\<bar> \<le> 2 ^ 1022)"

text \<open>
  A number is finite and within the relative distance \<open>B\<close> of the real \<open>E\<close>.
\<close>

definition approximates :: "jsnum \<Rightarrow> real \<Rightarrow> real \<Rightarrow> bool" where
  "approximates v E B = (case v of Num y \<Rightarrow> \<bar>y - E\<bar> \<le> B * \<bar>E\<bar> | _ \<Rightarrow> False)"

text \<open>
  The exact product that \<^verbatim>\<open>convertPrice\<close> approximates: the base price times the
  factors that apply.
\<close>

definition exact_price :: "real \<Rightarrow> string \<Rightarrow> string \<Rightarrow> real \<Rightarrow> real option \<Rightarrow> real" where
  "exact_price b u c r k =
     b * (if u = ''gram'' then 1 / TROY_OUNCE_IN_GRAMS else 1)
       * (if c = ''JOD'' then r else 1)
       * (case k of None \<Rightarrow> 1 | Some q \<Rightarrow> q / 24)"

text \<open>
  No intermediate result of \<^verbatim>\<open>convertPrice\<close> leaves the normal range: the exact
  value of every product the function forms, and of the purity ratio, is in it.
\<close>

definition products_in_range :: "real \<Rightarrow> string \<Rightarrow> string \<Rightarrow> real \<Rightarrow> real option \<Rightarrow> bool" where
  "products_in_range b u c r k =
     ((u = ''gram'' \<longrightarrow> in_normal_range (exact_price b u ''USD'' r None))
      \<and> (c = ''JOD'' \<longrightarrow> in_normal_range (exact_price b u c r None))
      \<and> (case k of
           None \<Rightarrow> True
         | Some q \<Rightarrow> in_normal_range (q / 24) \<and> in_normal_range (exact_price b u c r (Some q))))"

text \<open>
  Concrete hosts, replies, requests and states on which the model is run below: a host
  with no SMTP variables, a host whose transport rejects every mail, a subscriber with
  the band 1900 to 2100 USD per ounce, and a cache holding 2200 USD per ounce.
  \<open>example_numbers\<close> reads the strings that occur in them as JavaScript does.
\<close>

definition example_numbers :: "string \<Rightarrow> jsnum" where
  "example_numbers v =
     (if v = ''465'' then Num 465
      else if v = ''40'' then Num 40
      else if v = ''21'' then Num 21
      else NaN)"

definition host_without_smtp :: host where
  "host_without_smtp =
     \<lparr> StringToNumber = example_numbers,
       NumberToString = (\<lambda>n. ''<number>''),
       SMTP_HOST = None, SMTP_PORT = None, SMTP_USER = None, SMTP_PASS = None,
       SMTP_FROM = None,
       sendMail = (\<lambda>t m. None),
       clock = (\<lambda>e. ''2024-01-01T00:00:00.000Z'') \<rparr>"

definition host_failing_smtp :: host where
  "host_failing_smtp =
     \<lparr> StringToNumber = example_numbers,
       NumberToString = (\<lambda>n. ''<number>''),
       SMTP_HOST = Some ''smtp.example.org'', SMTP_PORT = Some ''465'',
       SMTP_USER = Some ''aurum'', SMTP_PASS = Some ''secret'',
       SMTP_FROM = None,
       sendMail = (\<lambda>t m. Some (SendMailError ''connection refused'')),
       clock = (\<lambda>e. ''2024-01-01T00:00:00.000Z'') \<rparr>"

definition subscriber_a :: subscription where
  "subscriber_a =
     \<lparr> email = ''a@x.com'', unit = ''ounce'', currency = ''USD'', purity = Num 24,
       lower_threshold = Num 1900, upper_threshold = Num 2100, lastStatus = None \<rparr>"

definition state_2200 :: state where
  "state_2200 =
     \<lparr> subscriptions = [(''a@x.com'', subscriber_a)],
       latestUsdPricePerOunce = Some (Num 2200),
       latestUsdToJodRate = Some (round_double (71 / 100)),
       latestFetchError = None \<rparr>"

definition state_errored :: state where
  "state_errored = state_2200\<lparr> latestFetchError := Some (GoldApiError 500) \<rparr>"

definition gold_reply_ok :: http_reply where
  "gold_reply_ok =
     Reply 200 (Some (JObject [(''items'', JArray [JObject [(''xauPrice'', JNumber (Num 2300))]])]))"

definition fx_reply_ok :: http_reply where
  "fx_reply_ok =
     Reply 200 (Some (JObject [(''rates'', JObject [(''JOD'', JNumber (Num (709 / 1000)))])]))"




definition query_without_lower :: agent_query where
  "query_without_lower =
     \<lparr> q_unit = JString ''gram'', q_currency = JString ''JOD'', q_lower_threshold = JUndefined,
       q_upper_threshold = JString ''40'', q_purity = JString ''21'' \<rparr>"

subsection \<open>The rounding to a double\<close>

lemma find_expo_bounds: "- 1022 \<le> find_expo n a \<and> find_expo n a \<le> int n - 1022"
  by (induction n) auto

lemma find_expo_le: "- 1022 < find_expo n a \<Longrightarrow> 2 powi (find_expo n a) \<le> a"
  by (induction n) (auto split: if_splits)

lemma find_expo_gt: "find_expo n a < int n - 1022 \<Longrightarrow> a < 2 powi (find_expo n a + 1)"
proof (induction n)
  case 0
  then show ?case by simp
next
  case (Suc n)
  show ?case
  proof (cases "2 powi (int (Suc n) - 1022) \<le> a")
    case True
    with Suc.prems show ?thesis by simp
  next
    case False
    then have eq: "find_expo (Suc n) a = find_expo n a" and lt: "a < 2 powi (int (Suc n) - 1022)"
      by simp_all
    show ?thesis
    proof (cases "find_expo n a = int n - 1022")
      case True
      then have "find_expo n a + 1 = int (Suc n) - 1022" by simp
      with lt have "a < 2 powi (find_expo n a + 1)" by (simp only:)
      with eq show ?thesis by (simp only:)
    next
      case False
      with find_expo_bounds [of n a] have "find_expo n a < int n - 1022" by simp
      from Suc.IH [OF this] eq show ?thesis by simp
    qed
  qed
qed

lemma expo_bounds: "- 1022 \<le> expo a" "expo a \<le> 1023"
  using find_expo_bounds [of 2045 a] by (simp_all add: expo_def)

lemma expo_le: "- 1022 < expo a \<Longrightarrow> 2 powi (expo a) \<le> a"
  unfolding expo_def by (rule find_expo_le)

lemma expo_gt: "expo a < 1023 \<Longrightarrow> a < 2 powi (expo a + 1)"
  unfolding expo_def using find_expo_gt [of 2045 a] by simp

lemma expo_le_normal: "2 powi (- 1022) \<le> a \<Longrightarrow> 2 powi (expo a) \<le> a"
  using expo_le [of a] expo_bounds(1) [of a] by (cases "expo a = - 1022") auto

lemma expo_eqI:
  assumes "- 1022 \<le> e" "e \<le> 1023" "e = - 1022 \<or> 2 powi e \<le> a" "e = 1023 \<or> a < 2 powi (e + 1)"
  shows "expo a = e"
proof (rule ccontr)
  assume ne: "expo a \<noteq> e"
  show False
  proof (cases "expo a < e")
    case True
    with assms(2) have "expo a < 1023" by simp
    then have "a < 2 powi (expo a + 1)" by (rule expo_gt)
    also have "(2::real) powi (expo a + 1) \<le> 2 powi e"
      using True by (intro power_int_increasing) auto
    finally have "a < 2 powi e" .
    moreover from True expo_bounds(1) [of a] have "e \<noteq> - 1022" by simp
    ultimately show False using assms(3) by simp
  next
    case False
    with ne have gt: "e < expo a" by simp
    with assms(1) have "- 1022 < expo a" by simp
    then have "2 powi (expo a) \<le> a" by (rule expo_le)
    moreover have "(2::real) powi (e + 1) \<le> 2 powi (expo a)"
      using gt by (intro power_int_increasing) auto
    moreover from gt expo_bounds(2) [of a] have "e \<noteq> 1023" by simp
    ultimately show False using assms(4) by simp
  qed
qed

lemma expo_mono: "a \<le> b \<Longrightarrow> expo a \<le> expo b"
proof (rule ccontr)
  assume ab: "a \<le> b" and "\<not> expo a \<le> expo b"
  then have lt: "expo b < expo a" by simp
  with expo_bounds(2) [of a] have "expo b < 1023" by simp
  then have "b < 2 powi (expo b + 1)" by (rule expo_gt)
  also have "(2::real) powi (expo b + 1) \<le> 2 powi (expo a)"
    using lt by (intro power_int_increasing) auto
  also have "\<dots> \<le> a"
    using lt expo_bounds(1) [of b] by (intro expo_le) simp
  finally show False using ab by simp
qed

lemma rne_error: "\<bar>of_int (rne m) - m\<bar> \<le> 1 / 2"
proof -
  have "of_int \<lfloor>m\<rfloor> \<le> m" "m < of_int \<lfloor>m\<rfloor> + 1" by linarith+
  then show ?thesis
    by (auto simp: rne_def Let_def)
qed

lemma rne_eqI: "\<bar>m - of_int n\<bar> < 1 / 2 \<Longrightarrow> rne m = n"
proof -
  assume a: "\<bar>m - of_int n\<bar> < 1 / 2"
  have "\<bar>of_int (rne m) - m\<bar> \<le> 1 / 2" by (rule rne_error)
  with a have "\<bar>(of_int (rne m) :: real) - of_int n\<bar> < 1" by linarith
  then have "\<bar>rne m - n\<bar> < 1"
    by (metis of_int_1 of_int_abs of_int_diff of_int_less_iff)
  then show ?thesis by simp
qed

lemma rne_of_int: "rne (of_int n) = n"
  by (rule rne_eqI) simp

lemma rne_mono: "m \<le> m' \<Longrightarrow> rne m \<le> rne m'"
proof -
  assume le: "m \<le> m'"
  have fl: "\<lfloor>m\<rfloor> \<le> \<lfloor>m'\<rfloor>" using le by (rule floor_mono)
  have b: "\<lfloor>m\<rfloor> \<le> rne m" "rne m \<le> \<lfloor>m\<rfloor> + 1" "\<lfloor>m'\<rfloor> \<le> rne m'"
    by (auto simp: rne_def Let_def)
  show ?thesis
  proof (cases "\<lfloor>m\<rfloor> = \<lfloor>m'\<rfloor>")
    case True
    with le show ?thesis by (auto simp: rne_def Let_def)
  next
    case False
    with fl have "\<lfloor>m\<rfloor> + 1 \<le> \<lfloor>m'\<rfloor>" by simp
    with b show ?thesis by linarith
  qed
qed

lemma round_double_eqI:
  assumes e: "- 1022 \<le> e" "e \<le> 1023"
    and lo: "e = - 1022 \<or> 2 powi e \<le> \<bar>x\<bar>"
    and hi: "\<bar>x\<bar> < 2 powi (e + 1)"
    and n: "\<bar>x / 2 powi (e - 52) - of_int n\<bar> < 1 / 2"
    and fin: "\<bar>of_int n * 2 powi (e - 52)\<bar> < (2::real) ^ 1024"
  shows "round_double x = Num (of_int n * 2 powi (e - 52))"
proof -
  have "expo \<bar>x\<bar> = e"
    using e lo hi by (intro expo_eqI) auto
  moreover have "rne (x / 2 powi (e - 52)) = n"
    using n by (rule rne_eqI)
  ultimately show ?thesis
    using fin by (simp add: round_double_def round_to_spacing_def Let_def)
qed

lemma round_double_zero: "round_double 0 = Num 0"
  by (simp add: round_double_def round_to_spacing_def Let_def rne_def)

lemma round_double_accurate:
  assumes lo: "2 powi (- 1022) \<le> \<bar>x\<bar>" and hi: "\<bar>x\<bar> \<le> 2 ^ 1023"
  shows "\<exists>d. \<bar>d\<bar> \<le> 1 / 2 ^ 53 \<and> round_double x = Num (x * (1 + d))"
proof -
  define e where "e = expo \<bar>x\<bar>"
  define q :: real where "q = 2 powi (e - 52)"
  define r :: real where "r = of_int (rne (x / q)) * q"
  have q: "0 < q" by (simp add: q_def)
  have x0: "x \<noteq> 0" using lo by auto
  have ex: "2 powi e \<le> \<bar>x\<bar>"
    unfolding e_def using lo by (rule expo_le_normal)
  have "r - x = (of_int (rne (x / q)) - x / q) * q"
    using q by (simp add: r_def left_diff_distrib)
  then have "\<bar>r - x\<bar> = \<bar>of_int (rne (x / q)) - x / q\<bar> * q"
    using q by (simp add: abs_mult)
  also have "\<dots> \<le> 1 / 2 * q"
    using rne_error [of "x / q"] q by (intro mult_right_mono) auto
  also have "1 / 2 * q = 2 powi e / 2 ^ 53"
    by (simp add: q_def power_int_diff)
  also have "\<dots> \<le> \<bar>x\<bar> / 2 ^ 53"
    using ex by (simp add: divide_right_mono)
  finally have err: "\<bar>r - x\<bar> \<le> \<bar>x\<bar> / 2 ^ 53" .
  define d where "d = (r - x) / x"
  have d: "\<bar>d\<bar> \<le> 1 / 2 ^ 53"
  proof -
    have "\<bar>d\<bar> = \<bar>r - x\<bar> / \<bar>x\<bar>" by (simp add: d_def)
    also have "\<dots> \<le> (\<bar>x\<bar> / 2 ^ 53) / \<bar>x\<bar>"
      using err by (intro divide_right_mono) auto
    also have "\<dots> = 1 / 2 ^ 53" using x0 by simp
    finally show ?thesis .
  qed
  have rx: "r = x * (1 + d)"
    using x0 by (simp add: d_def field_simps)
  have "\<bar>r\<bar> \<le> \<bar>x\<bar> + \<bar>r - x\<bar>" by linarith
  also have "\<dots> \<le> \<bar>x\<bar> + \<bar>x\<bar> / 2 ^ 53" using err by simp
  also have "\<dots> \<le> 2 ^ 1023 + 2 ^ 1023 / 2 ^ 53"
    using hi by (intro add_mono divide_right_mono) auto
  also have "\<dots> < (2::real) ^ 1024" by simp
  finally have "\<bar>r\<bar> < 2 ^ 1024" .
  then have "round_double x = Num r"
    by (simp add: round_double_def round_to_spacing_def Let_def r_def q_def e_def)
  with d rx show ?thesis by auto
qed

lemma round_double_spacing:
  "round_double x = (if 2 ^ 1024 \<le> \<bar>round_to_spacing x\<bar> then (if 0 < x then PosInf else NegInf) else Num (round_to_spacing x))"
  by (simp add: round_double_def Let_def)

lemma round_to_spacing_nonneg: "0 \<le> x \<Longrightarrow> 0 \<le> round_to_spacing x"
proof -
  assume "0 \<le> x"
  then have "0 \<le> x / 2 powi (expo \<bar>x\<bar> - 52)" by simp
  then have "rne 0 \<le> rne (x / 2 powi (expo \<bar>x\<bar> - 52))" by (rule rne_mono)
  then have "0 \<le> rne (x / 2 powi (expo \<bar>x\<bar> - 52))"
    using rne_of_int [of 0] by simp
  then show ?thesis by (simp add: round_to_spacing_def Let_def)
qed

lemma round_to_spacing_mono:
  assumes "0 \<le> x" "x \<le> y"
  shows "round_to_spacing x \<le> round_to_spacing y"
proof -
  define ex where "ex = expo \<bar>x\<bar>"
  define ey where "ey = expo \<bar>y\<bar>"
  have le: "ex \<le> ey"
    unfolding ex_def ey_def using assms by (intro expo_mono) simp
  show ?thesis
  proof (cases "ex = ey")
    case True
    have "x / 2 powi (ey - 52) \<le> y / 2 powi (ey - 52)"
      using assms(2) by (intro divide_right_mono) simp_all
    then have "rne (x / 2 powi (ey - 52)) \<le> rne (y / 2 powi (ey - 52))"
      by (rule rne_mono)
    then have "of_int (rne (x / 2 powi (ey - 52))) * 2 powi (ey - 52)
        \<le> of_int (rne (y / 2 powi (ey - 52))) * (2::real) powi (ey - 52)"
      by (intro mult_right_mono) simp_all
    with True show ?thesis by (simp add: round_to_spacing_def Let_def ex_def ey_def)
  next
    case False
    with le have lt: "ex < ey" by simp
    have "ex < 1023" using lt expo_bounds(2) [of "\<bar>y\<bar>"] by (simp add: ey_def)
    then have "\<bar>x\<bar> < 2 powi (ex + 1)" unfolding ex_def by (rule expo_gt)
    then have "x < 2 powi (ex + 1)" by simp
    then have "x / 2 powi (ex - 52) \<le> 2 powi (ex + 1) / 2 powi (ex - 52)"
      by (intro divide_right_mono) simp_all
    also have "(2::real) powi (ex + 1) / 2 powi (ex - 52) = 2 ^ 53"
      by (simp add: power_int_diff [symmetric])
    finally have "x / 2 powi (ex - 52) \<le> of_int (2 ^ 53)" by simp
    then have "rne (x / 2 powi (ex - 52)) \<le> rne (of_int (2 ^ 53))" by (rule rne_mono)
    then have "rne (x / 2 powi (ex - 52)) \<le> 2 ^ 53" by (simp only: rne_of_int)
    then have "(of_int (rne (x / 2 powi (ex - 52))) :: real) \<le> of_int (2 ^ 53)"
      by (simp only: of_int_le_iff)
    then have "of_int (rne (x / 2 powi (ex - 52))) * 2 powi (ex - 52)
        \<le> of_int (2 ^ 53) * (2::real) powi (ex - 52)"
      by (intro mult_right_mono) simp_all
    also have "of_int (2 ^ 53) * (2::real) powi (ex - 52) = 2 powi (ex + 1)"
      by (simp add: power_int_diff power_int_add)
    finally have a: "round_to_spacing x \<le> 2 powi (ex + 1)" by (simp add: round_to_spacing_def Let_def ex_def)
    have b: "(2::real) powi (ex + 1) \<le> 2 powi ey"
      using lt by (intro power_int_increasing) auto
    have "- 1022 < ey" using lt expo_bounds(1) [of "\<bar>x\<bar>"] by (simp add: ex_def)
    then have "2 powi ey \<le> \<bar>y\<bar>" unfolding ey_def by (rule expo_le)
    then have yy: "2 powi ey \<le> y" using assms by simp
    have "(2::real) ^ 52 = 2 powi ey / 2 powi (ey - 52)"
      by (simp add: power_int_diff [symmetric])
    also have "\<dots> \<le> y / 2 powi (ey - 52)"
      using yy by (intro divide_right_mono) simp_all
    finally have "of_int (2 ^ 52) \<le> y / 2 powi (ey - 52)" by simp
    then have "rne (of_int (2 ^ 52)) \<le> rne (y / 2 powi (ey - 52))" by (rule rne_mono)
    then have "2 ^ 52 \<le> rne (y / 2 powi (ey - 52))" by (simp only: rne_of_int)
    then have "(of_int (2 ^ 52) :: real) \<le> of_int (rne (y / 2 powi (ey - 52)))"
      by (simp only: of_int_le_iff)
    then have m: "of_int (2 ^ 52) * (2::real) powi (ey - 52)
        \<le> of_int (rne (y / 2 powi (ey - 52))) * 2 powi (ey - 52)"
      by (intro mult_right_mono) simp_all
    have "(2::real) powi ey = of_int (2 ^ 52) * 2 powi (ey - 52)"
      by (simp add: power_int_diff)
    also note m
    also have "of_int (rne (y / 2 powi (ey - 52))) * 2 powi (ey - 52) = round_to_spacing y"
      by (simp add: round_to_spacing_def Let_def ey_def)
    finally have c: "2 powi ey \<le> round_to_spacing y" .
    from a b c show ?thesis by linarith
  qed
qed

lemma round_double_mono_nonneg:
  assumes "0 \<le> x" "x \<le> y"
  shows "js_le (round_double x) (round_double y)"
proof -
  have "round_to_spacing x \<le> round_to_spacing y" using assms by (rule round_to_spacing_mono)
  moreover have "0 \<le> round_to_spacing x" using assms(1) by (rule round_to_spacing_nonneg)
  moreover have "0 \<le> round_to_spacing y" using assms by (intro round_to_spacing_nonneg) simp
  moreover have "0 < x \<or> round_to_spacing x = 0"
    using assms(1) by (cases "x = 0") (auto simp: round_to_spacing_def Let_def rne_def)
  ultimately show ?thesis
    using assms by (auto simp: round_double_spacing js_le_def)
qed

text \<open>The price and the status of the example subscriber.\<close>

lemma round_double_1: "round_double 1 = Num 1"
  using round_double_eqI [of 0 1 "2 ^ 52"] by simp

lemma round_double_2200: "round_double 2200 = Num 2200"
  using round_double_eqI [of 11 2200 "2200 * 2 ^ 41"] by simp

lemma price_of_subscriber_a:
  "convertPrice (Num 2200) ''ounce'' ''USD'' rate (Some (Num 24)) = Num 2200"
  by (simp add: convertPrice_def round_double_1 round_double_2200)

lemma status_of_subscriber_a: "derived_status (Num 2200) rate subscriber_a = ''above_range''"
  by (simp add: derived_status_def subscriber_a_def price_of_subscriber_a evaluateStatus_def
      js_gt_def)

subsection \<open>The loop of the evaluation cycle\<close>

lemma evaluateEntry_fst:
  "fst (evaluateEntry h usd rate entry) =
     (snd entry)\<lparr> lastStatus := Some (derived_status usd rate (snd entry)) \<rparr>"
  by (simp add: evaluateEntry_def derived_status_def Let_def)

lemma evaluateEntry_to:
  "map d_to (snd (evaluateEntry h usd rate entry)) =
     (if alert_due usd rate (snd entry) then [fst entry] else [])"
  by (simp add: evaluateEntry_def derived_status_def alert_due_def Let_def)

lemma evaluateEntries_fst:
  "fst (evaluateEntries h usd rate es) =
     map (\<lambda>entry. (fst entry,
                    (snd entry)\<lparr> lastStatus := Some (derived_status usd rate (snd entry)) \<rparr>)) es"
proof (induction es)
  case Nil
  show ?case by simp
next
  case (Cons entry rest)
  then show ?case
    using evaluateEntry_fst [of h usd rate entry]
    by (simp add: split_beta Let_def)
qed

lemma evaluateEntries_to:
  "map d_to (snd (evaluateEntries h usd rate es)) =
     map fst (filter (\<lambda>entry. alert_due usd rate (snd entry)) es)"
proof (induction es)
  case Nil
  show ?case by simp
next
  case (Cons entry rest)
  then show ?case
    using evaluateEntry_to [of h usd rate entry]
    by (simp add: split_beta Let_def)
qed

text \<open>In a registry with one entry per key, a key is selected once or not at all.\<close>

lemma count_key_filter:
  "distinct (map fst es) \<Longrightarrow> (e, sub) \<in> set es \<Longrightarrow>
     length (filter (\<lambda>k. k = e) (map fst (filter P es))) = (if P (e, sub) then 1 else 0)"
proof (induction es)
  case Nil
  then show ?case by simp
next
  case (Cons x xs)
  show ?case
  proof (cases "x = (e, sub)")
    case True
    with Cons.prems have "e \<notin> fst ` set xs" by auto
    then have "\<forall>y\<in>set xs. fst y \<noteq> e" by force
    with True show ?thesis by (simp add: filter_empty_conv)
  next
    case False
    with Cons.prems have in_xs: "(e, sub) \<in> set xs" and d: "distinct (map fst xs)" by auto
    with Cons.prems have "fst x \<noteq> e"
      by (metis distinct.simps(2) fst_conv image_eqI list.simps(9) set_map)
    with Cons.IH [OF d in_xs] show ?thesis by (cases "P (e, sub)") simp_all
  qed
qed

lemma length_filter_map:
  "length (filter (\<lambda>d. f d = e) ds) = length (filter (\<lambda>k. k = e) (map f ds))"
  by (induction ds) auto

lemma cycle_registry:
  assumes "latestFetchError s = None"
    and "latestUsdPricePerOunce s = Some usd"
    and "latestUsdToJodRate s = Some rate"
  shows "subscriptions (fst (evaluateSubscriptions h s)) =
     map (\<lambda>entry. (fst entry,
                    (snd entry)\<lparr> lastStatus := Some (derived_status usd rate (snd entry)) \<rparr>))
       (subscriptions s)"
  using assms evaluateEntries_fst [of h usd rate "subscriptions s"]
  by (simp add: evaluateSubscriptions_def split_beta)

lemma cycle_recipients:
  assumes "latestFetchError s = None"
    and "latestUsdPricePerOunce s = Some usd"
    and "latestUsdToJodRate s = Some rate"
  shows "map d_to (snd (evaluateSubscriptions h s)) =
     map fst (filter (\<lambda>entry. alert_due usd rate (snd entry)) (subscriptions s))"
  using assms evaluateEntries_to [of h usd rate "subscriptions s"]
  by (simp add: evaluateSubscriptions_def split_beta)

text \<open>
  C1. In a cycle that runs (the cache is usable), every subscription of the registry
  comes out with its \<^verbatim>\<open>lastStatus\<close> overwritten by the newly computed status, whatever
  it was and whether or not an alert goes out; and \<^verbatim>\<open>sendAlertEmail\<close> is called for it
  exactly once when the new status is not \<^verbatim>\<open>within_range\<close> and differs from the stored
  one, and not at all otherwise. An unset \<^verbatim>\<open>lastStatus\<close> differs from every status,
  so a subscription that is out of range at its first evaluation gets one alert.
\<close>

theorem cycle_overwrites_and_alerts_on_change:
  assumes "latestFetchError s = None"
    and "latestUsdPricePerOunce s = Some usd"
    and "latestUsdToJodRate s = Some rate"
    and "distinct (map fst (subscriptions s))"
    and "(e, sub) \<in> set (subscriptions s)"
  shows "map_of (subscriptions (fst (evaluateSubscriptions h s))) e
           = Some (sub\<lparr> lastStatus := Some (derived_status usd rate sub) \<rparr>)
       \<and> length (filter (\<lambda>d. d_to d = e) (snd (evaluateSubscriptions h s)))
           = (if derived_status usd rate sub \<noteq> ''within_range''
                 \<and> lastStatus sub \<noteq> Some (derived_status usd rate sub) then 1 else 0)"
proof -
  let ?upd = "\<lambda>entry. (fst entry,
      (snd entry)\<lparr> lastStatus := Some (derived_status usd rate (snd entry)) \<rparr>)"
  have subs: "subscriptions (fst (evaluateSubscriptions h s)) = map ?upd (subscriptions s)"
    using assms(1-3) by (rule cycle_registry)
  have sent: "map d_to (snd (evaluateSubscriptions h s))
      = map fst (filter (\<lambda>entry. alert_due usd rate (snd entry)) (subscriptions s))"
    using assms(1-3) by (rule cycle_recipients)
  have keys: "map fst (map ?upd (subscriptions s)) = map fst (subscriptions s)"
    by (simp add: comp_def)
  have "(e, sub\<lparr> lastStatus := Some (derived_status usd rate sub) \<rparr>)
      \<in> set (map ?upd (subscriptions s))"
    using assms(5) by force
  moreover have "distinct (map fst (map ?upd (subscriptions s)))"
    using assms(4) by (simp only: keys)
  ultimately have a: "map_of (map ?upd (subscriptions s)) e
      = Some (sub\<lparr> lastStatus := Some (derived_status usd rate sub) \<rparr>)"
    by (rule map_of_is_SomeI [rotated])
  have b: "length (filter (\<lambda>d. d_to d = e) (snd (evaluateSubscriptions h s)))
      = (if alert_due usd rate sub then 1 else 0)"
    using count_key_filter [OF assms(4) assms(5), of "\<lambda>entry. alert_due usd rate (snd entry)"] sent
    by (simp add: length_filter_map [of d_to])
  from a b subs show ?thesis by (simp add: alert_due_def)
qed

theorem cycle_overwrites_and_alerts_on_change_witness:
  "latestFetchError state_2200 = None
   \<and> latestUsdPricePerOunce state_2200 = Some (Num 2200)
   \<and> latestUsdToJodRate state_2200 = Some (round_double (71 / 100))
   \<and> distinct (map fst (subscriptions state_2200))
   \<and> (''a@x.com'', subscriber_a) \<in> set (subscriptions state_2200)
   \<and> lastStatus subscriber_a = None
   \<and> map_of (subscriptions (fst (evaluateSubscriptions host_failing_smtp state_2200))) ''a@x.com''
       = Some (subscriber_a\<lparr> lastStatus := Some ''above_range'' \<rparr>)
   \<and> length (filter (\<lambda>d. d_to d = ''a@x.com'')
               (snd (evaluateSubscriptions host_failing_smtp state_2200))) = 1"
proof -
  have h1: "latestFetchError state_2200 = None"
    and h2: "latestUsdPricePerOunce state_2200 = Some (Num 2200)"
    and h3: "latestUsdToJodRate state_2200 = Some (round_double (71 / 100))"
    and h4: "distinct (map fst (subscriptions state_2200))"
    and h5: "(''a@x.com'', subscriber_a) \<in> set (subscriptions state_2200)"
    by (simp_all add: state_2200_def)
  have st: "derived_status (Num 2200) (round_double (71 / 100)) subscriber_a = ''above_range''"
    by (rule status_of_subscriber_a)
  have un: "lastStatus subscriber_a = None"
    by (simp add: subscriber_a_def)
  from cycle_overwrites_and_alerts_on_change [OF h1 h2 h3 h4 h5, of host_failing_smtp]
  show ?thesis using h1 h2 h3 h4 h5 un by (simp add: st)
qed

subsection \<open>The skipped cycle\<close>

text \<open>
  C2. When the cache is errored, or the price or the rate has never been filled, a call
  of \<^verbatim>\<open>evaluateSubscriptions\<close> returns the module's variables as they were (no
  \<^verbatim>\<open>lastStatus\<close> is written) and calls \<^verbatim>\<open>sendAlertEmail\<close> for nobody: the cycle is
  skipped as a whole.
\<close>

theorem errored_cache_skips_cycle:
  "latestFetchError s \<noteq> None \<or> latestUsdPricePerOunce s = None \<or> latestUsdToJodRate s = None
   \<Longrightarrow> evaluateSubscriptions h s = (s, [])"
  by (auto simp: evaluateSubscriptions_def split: option.splits)

theorem errored_cache_skips_cycle_witness:
  "latestFetchError state_errored \<noteq> None
   \<and> alert_due (Num 2200) (round_double (71 / 100)) subscriber_a
   \<and> evaluateSubscriptions host_without_smtp state_errored = (state_errored, [])"
proof -
  have h: "latestFetchError state_errored \<noteq> None"
    by (simp add: state_errored_def)
  have due: "alert_due (Num 2200) (round_double (71 / 100)) subscriber_a"
    by (simp add: alert_due_def status_of_subscriber_a) (simp add: subscriber_a_def)
  from errored_cache_skips_cycle [of state_errored host_without_smtp] h due
  show ?thesis by simp
qed

subsection \<open>The threshold evaluator\<close>

text \<open>
  C3. \<^verbatim>\<open>evaluateStatus\<close> returns one of the three statuses on every input. A price
  equal to the lower or to the upper threshold is \<^verbatim>\<open>within_range\<close> exactly when the
  lower threshold does not exceed the upper one. A price below the lower threshold is
  \<^verbatim>\<open>below_range\<close> whatever the upper threshold is, so the first comparison wins when
  the band is inverted and both comparisons hold.
\<close>

theorem evaluateStatus_three_way:
  "evaluateStatus p l u \<in> {''below_range'', ''above_range'', ''within_range''}
   \<and> (evaluateStatus (Num lo) (Num lo) (Num up) = ''within_range'' \<longleftrightarrow> lo \<le> up)
   \<and> (evaluateStatus (Num up) (Num lo) (Num up) = ''within_range'' \<longleftrightarrow> lo \<le> up)
   \<and> (js_lt p l \<longrightarrow> evaluateStatus p l u = ''below_range'')"
  by (auto simp: evaluateStatus_def js_gt_def)

theorem evaluateStatus_three_way_witness:
  "evaluateStatus (Num 5) (Num 10) (Num 1) \<in> {''below_range'', ''above_range'', ''within_range''}
   \<and> (1 :: real) \<le> 2
   \<and> evaluateStatus (Num 1) (Num 1) (Num 2) = ''within_range''
   \<and> evaluateStatus (Num 2) (Num 1) (Num 2) = ''within_range''
   \<and> js_lt (Num 5) (Num 10) \<and> js_gt (Num 5) (Num 1)
   \<and> evaluateStatus (Num 5) (Num 10) (Num 1) = ''below_range''"
  using evaluateStatus_three_way [of "Num 5" "Num 10" "Num 1" 1 2]
  by (simp add: js_gt_def)

text \<open>
  With the band inverted a boundary value is not within range: for lower 2 and upper 1
  the price 2 passes the first comparison and is caught by the second.
\<close>

theorem evaluateStatus_boundary_counterexample:
  "evaluateStatus (Num 2) (Num 2) (Num 1) = ''above_range''
   \<and> evaluateStatus (Num 2) (Num 2) (Num 1) \<noteq> ''within_range''"
  by (simp add: evaluateStatus_def js_gt_def)

subsection \<open>The price converter\<close>

text \<open>Relative error of the rounded operations inside the normal range.\<close>

lemma approximates_Num: "approximates (Num y) E B \<longleftrightarrow> \<bar>y - E\<bar> \<le> B * \<bar>E\<bar>"
  by (simp add: approximates_def)

lemma approximates_exact: "approximates (Num b) b 0"
  by (simp add: approximates_def)

lemma approximates_weaken: "approximates v E B \<Longrightarrow> B \<le> B' \<Longrightarrow> approximates v E B'"
proof (cases v)
  case (Num y)
  assume a: "approximates v E B" and b: "B \<le> B'"
  have "B * \<bar>E\<bar> \<le> B' * \<bar>E\<bar>" using b by (intro mult_right_mono) auto
  with a Num show ?thesis by (simp add: approximates_def)
qed (simp_all add: approximates_def)

lemma approximates_round:
  assumes E: "in_normal_range E" and y: "\<bar>y - E\<bar> \<le> B * \<bar>E\<bar>" and B: "0 \<le> B" "B \<le> 1 / 2"
  shows "approximates (round_double y) E (B + 1 / 2 ^ 52)"
proof -
  have lo: "2 powi (- 1021) \<le> \<bar>E\<bar>" and hi: "\<bar>E\<bar> \<le> 2 ^ 1022"
    using E by (simp_all add: in_normal_range_def)
  have "B * \<bar>E\<bar> \<le> 1 / 2 * \<bar>E\<bar>"
    using B by (intro mult_right_mono) auto
  then have half: "B * \<bar>E\<bar> \<le> \<bar>E\<bar> / 2" by simp
  have ylo: "\<bar>E\<bar> / 2 \<le> \<bar>y\<bar>" and yhi: "\<bar>y\<bar> \<le> 3 / 2 * \<bar>E\<bar>"
    using y half by linarith+
  have "(2::real) powi (- 1022) = 2 powi (- 1021) / 2" by simp
  also have "\<dots> \<le> \<bar>E\<bar> / 2" using lo by simp
  finally have l: "2 powi (- 1022) \<le> \<bar>y\<bar>" using ylo by linarith
  have "3 / 2 * \<bar>E\<bar> \<le> 3 / 2 * 2 ^ 1022" using hi by simp
  also have "\<dots> \<le> (2::real) ^ 1023" by simp
  finally have h: "\<bar>y\<bar> \<le> 2 ^ 1023" using yhi by linarith
  from round_double_accurate [OF l h] obtain d where
    d: "\<bar>d\<bar> \<le> 1 / 2 ^ 53" and r: "round_double y = Num (y * (1 + d))" by blast
  have "\<bar>y * (1 + d) - E\<bar> \<le> \<bar>y - E\<bar> + \<bar>y\<bar> * \<bar>d\<bar>"
  proof -
    have "y * (1 + d) - E = (y - E) + y * d" by (simp add: algebra_simps)
    then show ?thesis by (metis abs_mult abs_triangle_ineq)
  qed
  also have "\<bar>y\<bar> * \<bar>d\<bar> \<le> (3 / 2 * \<bar>E\<bar>) * (1 / 2 ^ 53)"
    using yhi d by (intro mult_mono) auto
  also have "(3 / 2 * \<bar>E\<bar>) * (1 / 2 ^ 53) \<le> 1 / 2 ^ 52 * \<bar>E\<bar>" by simp
  finally have "\<bar>y * (1 + d) - E\<bar> \<le> B * \<bar>E\<bar> + 1 / 2 ^ 52 * \<bar>E\<bar>"
    using y by linarith
  then show ?thesis
    by (simp add: r approximates_def algebra_simps)
qed

lemma approximates_div:
  assumes "in_normal_range (b / c)"
  shows "approximates (js_div_const (Num b) c) (b / c) (1 / 2 ^ 52)"
  using approximates_round [of "b / c" "b / c" 0] assms by simp

lemma approximates_mul:
  assumes v: "approximates v E B" and w: "approximates w F C"
    and B: "0 \<le> B" "B \<le> 1 / 2 ^ 49" and C: "0 \<le> C" "C \<le> 1 / 2 ^ 49"
    and EF: "in_normal_range (E * F)"
  shows "approximates (js_mul v w) (E * F) (B + C + 1 / 2 ^ 51)"
proof -
  from v obtain y where vy: "v = Num y" and y: "\<bar>y - E\<bar> \<le> B * \<bar>E\<bar>"
    by (cases v) (auto simp: approximates_def)
  from w obtain z where wz: "w = Num z" and z: "\<bar>z - F\<bar> \<le> C * \<bar>F\<bar>"
    by (cases w) (auto simp: approximates_def)
  have zb: "\<bar>z\<bar> \<le> (1 + C) * \<bar>F\<bar>"
    using z by (simp add: algebra_simps)
  have "y * z - E * F = (y - E) * z + E * (z - F)" by (simp add: algebra_simps)
  then have "\<bar>y * z - E * F\<bar> \<le> \<bar>y - E\<bar> * \<bar>z\<bar> + \<bar>E\<bar> * \<bar>z - F\<bar>"
    by (metis abs_mult abs_triangle_ineq)
  also have "\<bar>y - E\<bar> * \<bar>z\<bar> \<le> (B * \<bar>E\<bar>) * ((1 + C) * \<bar>F\<bar>)"
    using y zb by (intro mult_mono) auto
  also have "\<bar>E\<bar> * \<bar>z - F\<bar> \<le> \<bar>E\<bar> * (C * \<bar>F\<bar>)"
    using z by (intro mult_left_mono) auto
  finally have "\<bar>y * z - E * F\<bar> \<le> (B * (1 + C) + C) * \<bar>E * F\<bar>"
    by (simp add: abs_mult algebra_simps)
  moreover have "B * C \<le> 1 / 2 ^ 49 * (1 / 2 ^ 49)"
    using B C by (intro mult_mono) auto
  then have "B * (1 + C) + C \<le> B + C + 1 / 2 ^ 52"
    by (simp add: algebra_simps)
  then have "(B * (1 + C) + C) * \<bar>E * F\<bar> \<le> (B + C + 1 / 2 ^ 52) * \<bar>E * F\<bar>"
    by (intro mult_right_mono) auto
  ultimately have yz: "\<bar>y * z - E * F\<bar> \<le> (B + C + 1 / 2 ^ 52) * \<bar>E * F\<bar>" by linarith
  have "B + C + 1 / 2 ^ 52 \<le> 1 / 2 ^ 49 + 1 / 2 ^ 49 + 1 / 2 ^ 52" using B C by linarith
  also have "\<dots> \<le> (1::real) / 2" by simp
  finally have s: "B + C + 1 / 2 ^ 52 \<le> 1 / 2" .
  have "approximates (round_double (y * z)) (E * F) (B + C + 1 / 2 ^ 52 + 1 / 2 ^ 52)"
    using EF yz s B C by (intro approximates_round) auto
  moreover have "B + C + 1 / 2 ^ 52 + 1 / 2 ^ 52 = B + C + 1 / 2 ^ 51" by simp
  ultimately show ?thesis by (simp only: vy wz js_mul.simps)
qed

lemma convertPrice_steps:
  "convertPrice base u c rate p =
     (case p of
        None \<Rightarrow> (if c = ''JOD''
                 then js_mul (if u = ''gram'' then js_div_const base TROY_OUNCE_IN_GRAMS else base) rate
                 else (if u = ''gram'' then js_div_const base TROY_OUNCE_IN_GRAMS else base))
      | Some q \<Rightarrow> js_mul (if c = ''JOD''
                 then js_mul (if u = ''gram'' then js_div_const base TROY_OUNCE_IN_GRAMS else base) rate
                 else (if u = ''gram'' then js_div_const base TROY_OUNCE_IN_GRAMS else base))
                (js_div_const q 24))"
  by (simp add: convertPrice_def split: option.splits)

lemma convertPrice_accurate:
  assumes "products_in_range b u c r k"
  shows "approximates (convertPrice (Num b) u c (Num r) (map_option Num k))
           (exact_price b u c r k) (1 / 2 ^ 49)"
proof -
  define g :: real where "g = (if u = ''gram'' then 1 / TROY_OUNCE_IN_GRAMS else 1)"
  define f :: real where "f = (if c = ''JOD'' then r else 1)"
  define v1 where "v1 = (if u = ''gram'' then js_div_const (Num b) TROY_OUNCE_IN_GRAMS else Num b)"
  define v2 where "v2 = (if c = ''JOD'' then js_mul v1 (Num r) else v1)"
  have r1: "u = ''gram'' \<Longrightarrow> in_normal_range (b / TROY_OUNCE_IN_GRAMS)"
    and r2: "c = ''JOD'' \<Longrightarrow> in_normal_range (b * g * r)"
    and r3: "\<And>q. k = Some q \<Longrightarrow> in_normal_range (q / 24) \<and> in_normal_range (b * g * f * (q / 24))"
    using assms by (auto simp: products_in_range_def exact_price_def g_def f_def)
  have a1: "approximates v1 (b * g) (1 / 2 ^ 52)"
  proof (cases "u = ''gram''")
    case True
    with approximates_div [OF r1] show ?thesis by (simp add: v1_def g_def)
  next
    case False
    with approximates_weaken [OF approximates_exact, of "1 / 2 ^ 52" b]
    show ?thesis by (simp add: v1_def g_def)
  qed
  have a2: "approximates v2 (b * g * f) (3 / 2 ^ 52)"
  proof (cases "c = ''JOD''")
    case True
    have "approximates (js_mul v1 (Num r)) (b * g * r) (1 / 2 ^ 52 + 0 + 1 / 2 ^ 51)"
      using a1 approximates_exact [of r] r2 [OF True]
      by (intro approximates_mul) auto
    then show ?thesis using True by (simp add: v2_def f_def)
  next
    case False
    with approximates_weaken [OF a1, of "3 / 2 ^ 52"]
    show ?thesis by (simp add: v2_def f_def)
  qed
  show ?thesis
  proof (cases k)
    case None
    have "convertPrice (Num b) u c (Num r) None = v2"
      by (simp add: convertPrice_steps v2_def v1_def)
    moreover have "exact_price b u c r None = b * g * f"
      by (simp add: exact_price_def g_def f_def)
    ultimately show ?thesis
      using approximates_weaken [OF a2, of "1 / 2 ^ 49"] None by simp
  next
    case (Some q)
    have w: "approximates (js_div_const (Num q) 24) (q / 24) (1 / 2 ^ 52)"
      using r3 [OF Some] by (intro approximates_div) simp
    have "approximates (js_mul v2 (js_div_const (Num q) 24)) (b * g * f * (q / 24))
        (3 / 2 ^ 52 + 1 / 2 ^ 52 + 1 / 2 ^ 51)"
      using a2 w r3 [OF Some] by (intro approximates_mul) auto
    then have "approximates (js_mul v2 (js_div_const (Num q) 24)) (b * g * f * (q / 24))
        (1 / 2 ^ 49)"
      by (rule approximates_weaken) simp
    moreover have cp: "convertPrice (Num b) u c (Num r) (Some (Num q))
        = js_mul v2 (js_div_const (Num q) 24)"
      by (simp add: convertPrice_steps v2_def v1_def)
    moreover have ep: "exact_price b u c r (Some q) = b * g * f * (q / 24)"
      by (simp add: exact_price_def g_def f_def)
    ultimately have "approximates (convertPrice (Num b) u c (Num r) (Some (Num q)))
        (exact_price b u c r (Some q)) (1 / 2 ^ 49)"
      by (simp only:)
    then show ?thesis using Some by simp
  qed
qed

text \<open>The scenario of the specification, operation by operation.\<close>

lemma round_double_071: "round_double (71 / 100) = Num (799388933858263 / 1125899906842624)"
  using round_double_eqI [of "- 1" "71 / 100" 6395111470866104] by simp

lemma round_double_ratio_18: "round_double (18 / 24) = Num (3 / 4)"
  using round_double_eqI [of "- 1" "18 / 24" 6755399441055744] by simp

lemma round_double_ratio_21: "round_double (21 / 24) = Num (7 / 8)"
  using round_double_eqI [of "- 1" "21 / 24" 7881299347898368] by simp

lemma round_double_ratio_24: "round_double (24 / 24) = Num 1"
  using round_double_1 by simp

lemma scenario_step_1:
  "js_div_const (Num 2000) TROY_OUNCE_IN_GRAMS = Num (1131202986443069 / 17592186044416)"
  using round_double_eqI [of 6 "2000 / TROY_OUNCE_IN_GRAMS" 4524811945772276]
  by (simp add: TROY_OUNCE_IN_GRAMS_def)

lemma scenario_step_2:
  "js_mul (Num (1131202986443069 / 17592186044416)) (Num (799388933858263 / 1125899906842624))
     = Num (803154120374579 / 17592186044416)"
  using round_double_eqI [of 5
      "1131202986443069 / 17592186044416 * (799388933858263 / 1125899906842624)" 6425232962996632]
  by simp

lemma scenario_step_3:
  "js_mul (Num (803154120374579 / 17592186044416)) (Num (7 / 8))
     = Num (5622078842622053 / 140737488355328)"
  using round_double_eqI [of 5 "803154120374579 / 17592186044416 * (7 / 8)" 5622078842622053]
  by simp

lemma purity_ratio_21: "js_div_const (Num 21) 24 = Num (7 / 8)"
  using round_double_ratio_21 by simp

lemma scenario_price:
  "convertPrice (Num 2000) ''gram'' ''JOD'' (round_double (71 / 100)) (Some (Num 21))
     = Num (5622078842622053 / 140737488355328)"
  by (simp add: convertPrice_steps round_double_071 purity_ratio_21 scenario_step_1
      scenario_step_2 scenario_step_3 del: js_mul.simps(1) js_div_const.simps(1))

lemma scenario_round4: "round4 (5622078842622053 / 140737488355328) = 399473 / 10000"
  by (simp add: round4_def floor_eq_iff)

lemma round_double_39_9473:
  "round_double (399473 / 10000) = Num (2811041334288397 / 70368744177664)"
  using round_double_eqI [of 5 "399473 / 10000" 5622082668576794] by simp

lemma round_double_39_9163:
  "round_double (399163 / 10000) = Num (5617719806437779 / 140737488355328)"
  using round_double_eqI [of 5 "399163 / 10000" 5617719806437779] by simp

text \<open>
  C9. At 2000 USD per ounce and a rate of 0.71, the price of a gram of 21 carat gold in
  JOD, as \<^verbatim>\<open>convertPrice\<close> computes it in double arithmetic, is the double
  39.94727281495651, which is 2000/31.1035 * 0.71 * 21/24 to within \<open>10\<^sup>-\<^sup>1\<^sup>4\<close>; rounded to
  four decimals it is 39.9473, and it is within the band from 30 to 40.
\<close>

theorem scenario_gram_jod_21:
  "convertPrice (Num 2000) ''gram'' ''JOD'' (round_double (71 / 100)) (Some (Num 21))
     = Num (5622078842622053 / 140737488355328)
   \<and> \<bar>5622078842622053 / 140737488355328 - 2000 / (311035 / 10000) * (71 / 100) * (21 / 24)\<bar>
       < (1 :: real) / 10 ^ 14
   \<and> toFixed4 (convertPrice (Num 2000) ''gram'' ''JOD'' (round_double (71 / 100)) (Some (Num 21)))
     = round_double (399473 / 10000)
   \<and> evaluateStatus
       (convertPrice (Num 2000) ''gram'' ''JOD'' (round_double (71 / 100)) (Some (Num 21)))
       (Num 30) (Num 40) = ''within_range''"
  by (simp add: scenario_price scenario_round4 evaluateStatus_def js_gt_def)

text \<open>The four-decimal rounding of that price is not 39.9163.\<close>

theorem scenario_gram_jod_21_counterexample:
  "toFixed4 (convertPrice (Num 2000) ''gram'' ''JOD'' (round_double (71 / 100)) (Some (Num 21)))
     \<noteq> round_double (399163 / 10000)
   \<and> toFixed4 (convertPrice (Num 2000) ''gram'' ''JOD'' (round_double (71 / 100)) (Some (Num 21)))
     \<noteq> Num (399163 / 10000)"
  by (simp add: scenario_price scenario_round4 round_double_39_9473 round_double_39_9163)

text \<open>Order of the converted prices.\<close>

lemma round_double_nonneg:
  assumes "0 \<le> x"
  shows "(\<exists>y. round_double x = Num y \<and> 0 \<le> y) \<or> round_double x = PosInf"
proof (cases "x = 0")
  case True
  then show ?thesis by (simp add: round_double_zero)
next
  case False
  with assms have "0 < x" by simp
  moreover have "0 \<le> round_to_spacing x" using assms by (rule round_to_spacing_nonneg)
  ultimately show ?thesis by (simp add: round_double_spacing)
qed

lemma round_double_2_1020: "round_double (2 ^ 1020) = Num (2 ^ 1020)"
  using round_double_eqI [of 1020 "2 ^ 1020" "2 ^ 52"] by simp

lemma round_double_small:
  assumes "0 \<le> x" "x \<le> 2 ^ 1020"
  shows "\<exists>y. round_double x = Num y \<and> 0 \<le> y"
proof -
  have "js_le (round_double x) (round_double (2 ^ 1020))"
    using assms by (rule round_double_mono_nonneg)
  then have "js_le (round_double x) (Num (2 ^ 1020))"
    by (simp only: round_double_2_1020)
  then have "round_double x \<noteq> PosInf"
    by (cases "round_double x") (simp_all add: js_le_def)
  with round_double_nonneg [OF assms(1)] show ?thesis by auto
qed

lemma purity_ratio_positive:
  assumes "Num p \<in> VALID_PURITY_LEVELS"
  shows "\<exists>k. js_div_const (Num p) 24 = Num k \<and> 0 < k"
proof -
  have p: "18 \<le> p" "p \<le> 24"
    using assms by (auto simp: VALID_PURITY_LEVELS_def)
  then have "in_normal_range (p / 24)"
    by (simp add: in_normal_range_def)
  then have "approximates (js_div_const (Num p) 24) (p / 24) (1 / 2 ^ 52)"
    by (rule approximates_div)
  then obtain k where k: "js_div_const (Num p) 24 = Num k"
    and e: "\<bar>k - p / 24\<bar> \<le> 1 / 2 ^ 52 * \<bar>p / 24\<bar>"
    by (cases "js_div_const (Num p) 24") (auto simp: approximates_def)
  have "1 / 2 ^ 52 * \<bar>p / 24\<bar> \<le> 1 / 2 * \<bar>p / 24\<bar>"
    by (intro mult_right_mono) auto
  with e p have "0 < k" by (simp add: abs_if split: if_splits)
  with k show ?thesis by blast
qed

lemma purity_step_mono:
  assumes x: "(\<exists>y. X = Num y \<and> 0 \<le> y) \<or> X = PosInf"
    and p: "Num p1 \<in> VALID_PURITY_LEVELS" "Num p2 \<in> VALID_PURITY_LEVELS" "p1 \<le> p2"
  shows "js_le (js_mul X (js_div_const (Num p1) 24)) (js_mul X (js_div_const (Num p2) 24))"
proof -
  from purity_ratio_positive [OF p(1)] obtain k1 where
    k1: "js_div_const (Num p1) 24 = Num k1" "0 < k1" by blast
  from purity_ratio_positive [OF p(2)] obtain k2 where
    k2: "js_div_const (Num p2) 24 = Num k2" "0 < k2" by blast
  have "0 \<le> p1 / 24" using p(1) by (auto simp: VALID_PURITY_LEVELS_def)
  moreover have "p1 / 24 \<le> p2 / 24" using p(3) by simp
  ultimately have "js_le (round_double (p1 / 24)) (round_double (p2 / 24))"
    by (rule round_double_mono_nonneg)
  then have "js_le (js_div_const (Num p1) 24) (js_div_const (Num p2) 24)" by simp
  then have le: "k1 \<le> k2" by (simp only: k1 k2) (simp add: js_le_def)
  from x show ?thesis
  proof
    assume "\<exists>y. X = Num y \<and> 0 \<le> y"
    then obtain y where y: "X = Num y" "0 \<le> y" by blast
    have "0 \<le> y * k1" using y k1 by simp
    moreover have "y * k1 \<le> y * k2" using y le by (intro mult_left_mono) auto
    ultimately have "js_le (round_double (y * k1)) (round_double (y * k2))"
      by (rule round_double_mono_nonneg)
    then show ?thesis by (simp only: y k1 k2 js_mul.simps)
  next
    assume "X = PosInf"
    then show ?thesis using k1(2) k2(2) by (simp only: k1(1) k2(1)) (simp add: js_le_def)
  qed
qed

lemma price_before_purity_nonneg:
  assumes b: "0 \<le> b" "b < 2 ^ 1024" and r: "c = ''JOD'' \<longrightarrow> 0 \<le> r"
  shows "(\<exists>y. convertPrice (Num b) u c (Num r) None = Num y \<and> 0 \<le> y)
       \<or> convertPrice (Num b) u c (Num r) None = PosInf"
proof -
  define v1 where "v1 = (if u = ''gram'' then js_div_const (Num b) TROY_OUNCE_IN_GRAMS else Num b)"
  have "\<exists>y. v1 = Num y \<and> 0 \<le> y"
  proof (cases "u = ''gram''")
    case True
    have "b / TROY_OUNCE_IN_GRAMS \<le> 2 ^ 1024 / 16"
      using b by (simp add: TROY_OUNCE_IN_GRAMS_def field_simps)
    also have "\<dots> = (2::real) ^ 1020" by simp
    finally have "b / TROY_OUNCE_IN_GRAMS \<le> 2 ^ 1020" .
    moreover have "0 \<le> b / TROY_OUNCE_IN_GRAMS"
      using b by (simp add: TROY_OUNCE_IN_GRAMS_def)
    ultimately show ?thesis
      using True round_double_small [of "b / TROY_OUNCE_IN_GRAMS"] by (simp add: v1_def)
  next
    case False
    with b show ?thesis by (simp add: v1_def)
  qed
  then obtain y where y: "v1 = Num y" "0 \<le> y" by blast
  have "convertPrice (Num b) u c (Num r) None = (if c = ''JOD'' then js_mul v1 (Num r) else v1)"
    by (simp add: convertPrice_steps v1_def)
  moreover have "c = ''JOD'' \<Longrightarrow> 0 \<le> y * r" using y r by simp
  ultimately show ?thesis
    using y round_double_nonneg [of "y * r"] by (cases "c = ''JOD''") auto
qed

lemma convertPrice_purity_step:
  "convertPrice base u c rate (Some q) = js_mul (convertPrice base u c rate None) (js_div_const q 24)"
  by (simp add: convertPrice_steps)

lemma convertPrice_purity_mono:
  assumes "0 \<le> b" "b < 2 ^ 1024" "c = ''JOD'' \<longrightarrow> 0 \<le> r"
    and "Num p1 \<in> VALID_PURITY_LEVELS" "Num p2 \<in> VALID_PURITY_LEVELS" "p1 \<le> p2"
  shows "js_le (convertPrice (Num b) u c (Num r) (Some (Num p1)))
               (convertPrice (Num b) u c (Num r) (Some (Num p2)))"
  unfolding convertPrice_purity_step
  using price_before_purity_nonneg [OF assms(1-3)] assms(4-6)
  by (rule purity_step_mono)

lemma gram_below_ounce:
  assumes b: "0 < b" and r: "c = ''JOD'' \<longrightarrow> 0 < r" and p: "Num p \<in> VALID_PURITY_LEVELS"
    and u: "u \<noteq> ''gram''"
    and rg: "products_in_range b ''gram'' c r (Some p)"
    and ro: "products_in_range b u c r (Some p)"
  shows "js_lt (convertPrice (Num b) ''gram'' c (Num r) (Some (Num p)))
               (convertPrice (Num b) u c (Num r) (Some (Num p)))"
proof -
  define Eo where "Eo = exact_price b u c r (Some p)"
  define Eg where "Eg = exact_price b ''gram'' c r (Some p)"
  have pp: "0 < p" using p by (auto simp: VALID_PURITY_LEVELS_def)
  have f: "0 < (if c = ''JOD'' then r else 1)" using r by simp
  have Eo: "0 < Eo"
    using b f pp u by (simp add: Eo_def exact_price_def)
  have Eg: "Eg = Eo / TROY_OUNCE_IN_GRAMS"
    using u by (simp add: Eg_def Eo_def exact_price_def)
  from convertPrice_accurate [OF rg] obtain yg where
    yg: "convertPrice (Num b) ''gram'' c (Num r) (Some (Num p)) = Num yg"
    and eg: "\<bar>yg - Eg\<bar> \<le> 1 / 2 ^ 49 * \<bar>Eg\<bar>"
    by (cases "convertPrice (Num b) ''gram'' c (Num r) (Some (Num p))")
       (auto simp: approximates_def Eg_def)
  from convertPrice_accurate [OF ro] obtain yo where
    yo: "convertPrice (Num b) u c (Num r) (Some (Num p)) = Num yo"
    and eo: "\<bar>yo - Eo\<bar> \<le> 1 / 2 ^ 49 * \<bar>Eo\<bar>"
    by (cases "convertPrice (Num b) u c (Num r) (Some (Num p))")
       (auto simp: approximates_def Eo_def)
  have Egpos: "0 < Eg" using Eo by (simp add: Eg TROY_OUNCE_IN_GRAMS_def)
  have "yg \<le> Eg + 1 / 2 ^ 49 * Eg" using eg Egpos by (simp add: abs_if split: if_splits)
  also have "\<dots> = Eo * ((1 + 1 / 2 ^ 49) / TROY_OUNCE_IN_GRAMS)"
    by (simp add: Eg algebra_simps)
  also have "\<dots> < Eo * (1 - 1 / 2 ^ 49)"
    using Eo by (intro mult_strict_left_mono) (simp_all add: TROY_OUNCE_IN_GRAMS_def)
  also have "\<dots> \<le> yo" using eo Eo by (simp add: abs_if algebra_simps split: if_splits)
  finally show ?thesis by (simp add: yg yo)
qed

text \<open>
  C8. For purities of the allowed set: with a finite base price and rate that are not
  negative, the converted price does not decrease when the purity grows; and with a
  positive base price and rate, as long as no intermediate product leaves the normal
  range of doubles, the price per gram is strictly below the price per ounce of the same
  currency and purity.
\<close>

theorem convertPrice_monotone:
  assumes "Num p1 \<in> VALID_PURITY_LEVELS" and "Num p2 \<in> VALID_PURITY_LEVELS"
  shows "(0 \<le> b \<and> b < 2 ^ 1024 \<and> (c = ''JOD'' \<longrightarrow> 0 \<le> r) \<and> p1 \<le> p2 \<longrightarrow>
            js_le (convertPrice (Num b) u c (Num r) (Some (Num p1)))
                  (convertPrice (Num b) u c (Num r) (Some (Num p2))))
       \<and> (0 < b \<and> (c = ''JOD'' \<longrightarrow> 0 < r) \<and> u \<noteq> ''gram''
            \<and> products_in_range b ''gram'' c r (Some p1) \<and> products_in_range b u c r (Some p1) \<longrightarrow>
            js_lt (convertPrice (Num b) ''gram'' c (Num r) (Some (Num p1)))
                  (convertPrice (Num b) u c (Num r) (Some (Num p1))))"
  using assms convertPrice_purity_mono [of b c r p1 p2 u] gram_below_ounce [of b c r p1 u]
  by blast

theorem convertPrice_monotone_witness:
  "Num 21 \<in> VALID_PURITY_LEVELS \<and> Num 24 \<in> VALID_PURITY_LEVELS
   \<and> (0 :: real) \<le> 2000 \<and> (2000 :: real) < 2 ^ 1024 \<and> (21 :: real) \<le> 24
   \<and> products_in_range 2000 ''gram'' ''JOD'' (799388933858263 / 1125899906842624) (Some 21)
   \<and> products_in_range 2000 ''ounce'' ''JOD'' (799388933858263 / 1125899906842624) (Some 21)
   \<and> js_le (convertPrice (Num 2000) ''ounce'' ''JOD'' (Num (799388933858263 / 1125899906842624))
               (Some (Num 21)))
            (convertPrice (Num 2000) ''ounce'' ''JOD'' (Num (799388933858263 / 1125899906842624))
               (Some (Num 24)))
   \<and> js_lt (convertPrice (Num 2000) ''gram'' ''JOD'' (Num (799388933858263 / 1125899906842624))
               (Some (Num 21)))
            (convertPrice (Num 2000) ''ounce'' ''JOD'' (Num (799388933858263 / 1125899906842624))
               (Some (Num 21)))"
proof -
  have v: "Num 21 \<in> VALID_PURITY_LEVELS" "Num 24 \<in> VALID_PURITY_LEVELS"
    by (simp_all add: VALID_PURITY_LEVELS_def)
  have g: "products_in_range 2000 ''gram'' ''JOD'' (799388933858263 / 1125899906842624) (Some 21)"
    by (simp add: products_in_range_def in_normal_range_def exact_price_def
        TROY_OUNCE_IN_GRAMS_def)
  have o: "products_in_range 2000 ''ounce'' ''JOD'' (799388933858263 / 1125899906842624) (Some 21)"
    by (simp add: products_in_range_def in_normal_range_def exact_price_def
        TROY_OUNCE_IN_GRAMS_def)
  from convertPrice_monotone [OF v, of 2000 "''JOD''" "799388933858263 / 1125899906842624"
      "''ounce''"] v g o
  show ?thesis by simp
qed

text \<open>The values of the operations at the inputs of the examples that follow.\<close>

lemma js_mul_0_1: "js_mul (Num 0) (Num 1) = Num 0"
  by (simp add: round_double_zero)

lemma purity_ratio_24: "js_div_const (Num 24) 24 = Num 1"
  by (simp add: round_double_1)

lemma purity_ratio_18: "js_div_const (Num 18) 24 = Num (3 / 4)"
  using round_double_ratio_18 by simp

lemma js_mul_minus_1_ratio_18: "js_mul (Num (- 1)) (Num (3 / 4)) = Num (- (3 / 4))"
  using round_double_eqI [of "- 1" "- 1 * (3 / 4)" "- 6755399441055744"] by simp

lemma js_mul_minus_1_1: "js_mul (Num (- 1)) (Num 1) = Num (- 1)"
  using round_double_eqI [of 0 "- 1 * 1" "- 4503599627370496"] by simp

lemma tiny_per_gram:
  "js_div_const (Num (1 / 2 ^ 600)) TROY_OUNCE_IN_GRAMS = Num (4633407432470811 / 2 ^ 657)"
  using round_double_eqI [of "- 605" "1 / 2 ^ 600 / TROY_OUNCE_IN_GRAMS" 4633407432470811]
  by (simp add: TROY_OUNCE_IN_GRAMS_def)

lemma tiny_per_gram_jod:
  "js_mul (Num (4633407432470811 / 2 ^ 657)) (Num (1 / 2 ^ 600)) = Num 0"
  using round_double_eqI [of "- 1022" "4633407432470811 / 2 ^ 657 * (1 / 2 ^ 600)" 0]
  by simp

lemma tiny_per_ounce_jod: "js_mul (Num (1 / 2 ^ 600)) (Num (1 / 2 ^ 600)) = Num 0"
  using round_double_eqI [of "- 1022" "1 / 2 ^ 600 * (1 / 2 ^ 600)" 0] by simp

text \<open>
  The price per gram is not below the price per ounce at a base price of zero, at an
  infinite base price, and where the products underflow to zero (a price and a rate of
  \<open>2\<^sup>-\<^sup>6\<^sup>0\<^sup>0\<close>); and at a negative base price 18 carat is dearer than 24 carat.
\<close>

theorem convertPrice_order_counterexample:
  "\<not> js_lt (convertPrice (Num 0) ''gram'' ''USD'' (Num 1) (Some (Num 24)))
           (convertPrice (Num 0) ''ounce'' ''USD'' (Num 1) (Some (Num 24)))
   \<and> \<not> js_lt (convertPrice PosInf ''gram'' ''USD'' (Num 1) (Some (Num 24)))
             (convertPrice PosInf ''ounce'' ''USD'' (Num 1) (Some (Num 24)))
   \<and> \<not> js_lt (convertPrice (Num (1 / 2 ^ 600)) ''gram'' ''JOD'' (Num (1 / 2 ^ 600)) (Some (Num 24)))
             (convertPrice (Num (1 / 2 ^ 600)) ''ounce'' ''JOD'' (Num (1 / 2 ^ 600)) (Some (Num 24)))
   \<and> \<not> js_le (convertPrice (Num (- 1)) ''ounce'' ''USD'' (Num 1) (Some (Num 18)))
             (convertPrice (Num (- 1)) ''ounce'' ''USD'' (Num 1) (Some (Num 24)))"
proof -
  have z: "js_div_const (Num 0) TROY_OUNCE_IN_GRAMS = Num 0"
    by (simp add: round_double_zero)
  have a: "convertPrice (Num 0) ''gram'' ''USD'' (Num 1) (Some (Num 24)) = Num 0"
    "convertPrice (Num 0) ''ounce'' ''USD'' (Num 1) (Some (Num 24)) = Num 0"
    by (simp_all add: convertPrice_steps z purity_ratio_24 js_mul_0_1
        del: js_mul.simps(1) js_div_const.simps(1))
  have b: "convertPrice PosInf ''gram'' ''USD'' (Num 1) (Some (Num 24)) = PosInf"
    "convertPrice PosInf ''ounce'' ''USD'' (Num 1) (Some (Num 24)) = PosInf"
    by (simp_all add: convertPrice_steps purity_ratio_24 del: js_div_const.simps(1))
  have g: "convertPrice (Num t) ''gram'' ''JOD'' (Num t) (Some (Num 24))
      = js_mul (js_mul (js_div_const (Num t) TROY_OUNCE_IN_GRAMS) (Num t)) (js_div_const (Num 24) 24)"
    and o: "convertPrice (Num t) ''ounce'' ''JOD'' (Num t) (Some (Num 24))
      = js_mul (js_mul (Num t) (Num t)) (js_div_const (Num 24) 24)" for t
    by (simp_all add: convertPrice_steps del: js_mul.simps(1) js_div_const.simps(1))
  have c: "convertPrice (Num (1 / 2 ^ 600)) ''gram'' ''JOD'' (Num (1 / 2 ^ 600)) (Some (Num 24)) = Num 0"
    "convertPrice (Num (1 / 2 ^ 600)) ''ounce'' ''JOD'' (Num (1 / 2 ^ 600)) (Some (Num 24)) = Num 0"
    by (simp_all only: g o tiny_per_gram tiny_per_gram_jod tiny_per_ounce_jod purity_ratio_24
        js_mul_0_1)
  have d: "convertPrice (Num (- 1)) ''ounce'' ''USD'' (Num 1) (Some (Num 18)) = Num (- (3 / 4))"
    "convertPrice (Num (- 1)) ''ounce'' ''USD'' (Num 1) (Some (Num 24)) = Num (- 1)"
    by (simp_all add: convertPrice_steps purity_ratio_18 purity_ratio_24 js_mul_minus_1_ratio_18
        js_mul_minus_1_1 del: js_mul.simps(1) js_div_const.simps(1))
  show ?thesis
    by (simp only: a b c d) (simp add: js_le_def)
qed




subsection \<open>Refreshing the cache\<close>

text \<open>
  C5. \<^verbatim>\<open>refreshReferencePrices\<close>: when both fetches succeed the two cached values are
  replaced and the error is cleared; when either fetch fails the two cached values stay
  as they were and the error of a failed fetch is recorded; in every case the call
  returns normally, with the registry untouched.
\<close>

theorem refresh_contains_failure:
  "(fetchGoldPriceUsdPerOunce gold = Inr p \<and> fetchUsdToJodRate fx = Inr r \<longrightarrow>
      refreshReferencePrices sf gold fx s
        = Inr (s\<lparr> latestUsdPricePerOunce := Some p, latestUsdToJodRate := Some r,
                  latestFetchError := None \<rparr>))
   \<and> (isl (fetchGoldPriceUsdPerOunce gold) \<or> isl (fetchUsdToJodRate fx) \<longrightarrow>
        (\<exists>e. refreshReferencePrices sf gold fx s = Inr (s\<lparr> latestFetchError := Some e \<rparr>)
             \<and> (fetchGoldPriceUsdPerOunce gold = Inl e \<or> fetchUsdToJodRate fx = Inl e)))
   \<and> (\<exists>s'. refreshReferencePrices sf gold fx s = Inr s'
          \<and> subscriptions s' = subscriptions s)"
  by (cases "fetchGoldPriceUsdPerOunce gold"; cases "fetchUsdToJodRate fx")
     (auto simp: refreshReferencePrices_def try_catch_def promise_all_def)

theorem refresh_contains_failure_witness:
  "fetchGoldPriceUsdPerOunce gold_reply_ok = Inr (Num 2300)
   \<and> fetchUsdToJodRate fx_reply_ok = Inr (Num (709 / 1000))
   \<and> refreshReferencePrices False gold_reply_ok fx_reply_ok state_errored
       = Inr (state_2200\<lparr> latestUsdPricePerOunce := Some (Num 2300),
                          latestUsdToJodRate := Some (Num (709 / 1000)) \<rparr>)
   \<and> isl (fetchGoldPriceUsdPerOunce (Reply 503 None))
   \<and> refreshReferencePrices False (Reply 503 None) fx_reply_ok state_2200
       = Inr (state_2200\<lparr> latestFetchError := Some (GoldApiError 503) \<rparr>)"
proof -
  have g: "fetchGoldPriceUsdPerOunce gold_reply_ok = Inr (Num 2300)"
    by (simp add: fetchGoldPriceUsdPerOunce_def gold_reply_ok_def response_ok_def)
  have f: "fetchUsdToJodRate fx_reply_ok = Inr (Num (709 / 1000))"
    by (simp add: fetchUsdToJodRate_def fx_reply_ok_def response_ok_def)
  have b: "fetchGoldPriceUsdPerOunce (Reply 503 None) = Inl (GoldApiError 503)"
    by (simp add: fetchGoldPriceUsdPerOunce_def response_ok_def)
  from refresh_contains_failure [of gold_reply_ok "Num 2300" fx_reply_ok "Num (709 / 1000)"
      False state_errored]
    refresh_contains_failure [of "Reply 503 None" "Num 0" fx_reply_ok "Num 0" False state_2200]
    g f b
  show ?thesis by (auto simp: state_errored_def state_2200_def)
qed

subsection \<open>Registration\<close>












subsection \<open>The agent query\<close>

text \<open>
  C10. A query to \<^verbatim>\<open>/api/agent\<close> whose lower or upper threshold is missing or does not
  convert to a finite number, or whose lower threshold is not below the upper one, is
  answered with status 400 whatever the cache holds: the thresholds are checked before
  the cache is looked at, so such a query never gets the 503 answer.
\<close>

theorem agent_validates_before_availability:
  "\<not> isFinite (Number h (q_lower_threshold q)) \<or> \<not> isFinite (Number h (q_upper_threshold q))
    \<or> js_ge (Number h (q_lower_threshold q)) (Number h (q_upper_threshold q))
   \<Longrightarrow> get_api_agent h now q s
         = \<lparr> code = 400, json = ErrorBody ''Thresholds must be numeric and lower < upper.'' \<rparr>"
  by (auto simp: get_api_agent_def Let_def)

theorem agent_validates_before_availability_witness:
  "\<not> isFinite (Number host_without_smtp (q_lower_threshold query_without_lower))
   \<and> latestFetchError state_errored \<noteq> None
   \<and> code (get_api_agent host_without_smtp ''2024-01-01T00:00:00.000Z'' query_without_lower
        state_errored) = 400
   \<and> code (get_api_agent host_without_smtp ''2024-01-01T00:00:00.000Z''
        (query_without_lower\<lparr> q_lower_threshold := JString ''21'' \<rparr>) state_errored) = 503"
proof -
  have h: "\<not> isFinite (Number host_without_smtp (q_lower_threshold query_without_lower))"
    by (simp add: query_without_lower_def)
  then have h': "\<not> isFinite (Number host_without_smtp (q_lower_threshold query_without_lower))
      \<or> \<not> isFinite (Number host_without_smtp (q_upper_threshold query_without_lower))
      \<or> js_ge (Number host_without_smtp (q_lower_threshold query_without_lower))
           (Number host_without_smtp (q_upper_threshold query_without_lower))"
    by simp
  have e: "latestFetchError state_errored \<noteq> None"
    by (simp add: state_errored_def)
  have u: "code (get_api_agent host_without_smtp ''2024-01-01T00:00:00.000Z''
        (query_without_lower\<lparr> q_lower_threshold := JString ''21'' \<rparr>) state_errored) = 503"
    by (simp add: get_api_agent_def query_without_lower_def host_without_smtp_def
        example_numbers_def js_ge_def state_errored_def state_2200_def)
  from agent_validates_before_availability [OF h', of "''2024-01-01T00:00:00.000Z''" state_errored]
    h e u
  show ?thesis by simp
qed

subsection \<open>Failing and missing transports\<close>







end
